theory Spec2Isabelle
  imports Main "HOL-Library.Word"
begin

section \<open>JavaScript strings and truthiness\<close>

text \<open>
  A JavaScript string is modelled as a \<open>string\<close>.  An optional property
  (\<^verbatim>\<open>branch?: string\<close>) and a property of a \<^verbatim>\<open>Partial<...>\<close> object is an
  \<open>option\<close>: \<open>None\<close> is \<^verbatim>\<open>undefined\<close> (or \<^verbatim>\<open>null\<close>).
\<close>

definition truthy_str :: "string option \<Rightarrow> bool" where
  "truthy_str v = (case v of None \<Rightarrow> False | Some s \<Rightarrow> s \<noteq> [])"

definition truthy_bool :: "bool option \<Rightarrow> bool" where
  "truthy_bool v = (case v of None \<Rightarrow> False | Some b \<Rightarrow> b)"

text \<open>\<^verbatim>\<open>line.startsWith(p)\<close>\<close>

definition startsWith :: "string \<Rightarrow> string \<Rightarrow> bool" where
  "startsWith line p = (take (length p) line = p)"

text \<open>\<^verbatim>\<open>line.substring(n)\<close> for \<open>0 \<le> n\<close>\<close>

definition substring :: "string \<Rightarrow> nat \<Rightarrow> string" where
  "substring line n = drop n line"

text \<open>
  \<^verbatim>\<open>s.replace(pat, rep)\<close> with a string pattern: the first occurrence of
  \<open>pat\<close> in \<open>s\<close>, wherever it is, is replaced; a string without an occurrence is
  returned as it is.
\<close>

fun replace :: "string \<Rightarrow> string \<Rightarrow> string \<Rightarrow> string" where
  "replace [] pat rep = (if pat = [] then rep else [])"
| "replace (c # cs) pat rep =
     (if startsWith (c # cs) pat then rep @ drop (length pat) (c # cs)
      else c # replace cs pat rep)"

text \<open>\<^verbatim>\<open>s.split('\n')\<close>: never empty, the last piece is what follows the last newline.\<close>

fun split_nl :: "string \<Rightarrow> string list" where
  "split_nl [] = [[]]"
| "split_nl (c # cs) =
     (if c = CHR 0x0A then [] # split_nl cs
      else (case split_nl cs of [] \<Rightarrow> [[c]] | piece # pieces \<Rightarrow> (c # piece) # pieces))"

section \<open>Worktree registry: \<^verbatim>\<open>WorktreeService\<close>\<close>

text \<open>
  \<^verbatim>\<open>Partial<GitWorktree>\<close>: every property may be missing.  The loop of
  \<^verbatim>\<open>list\<close> starts from the empty object.
\<close>

record GitWorktree =
  path :: "string option"
  head :: "string option"
  branch :: "string option"
  isMainWorktree :: "bool option"
  isLocked :: "bool option"
  prunable :: "bool option"

definition empty_worktree :: GitWorktree where
  "empty_worktree =
     \<lparr>path = None, head = None, branch = None,
      isMainWorktree = None, isLocked = None, prunable = None\<rparr>"

text \<open>The body of the \<^verbatim>\<open>for\<close> loop of \<^verbatim>\<open>list\<close>, on the pair \<open>(worktrees, current)\<close>.\<close>

definition list_step :: "GitWorktree list \<times> GitWorktree \<Rightarrow> string \<Rightarrow> GitWorktree list \<times> GitWorktree" where
  "list_step st line =
     (case st of (worktrees, current) \<Rightarrow>
        if startsWith line ''worktree '' then
          ((if truthy_str (path current) then worktrees @ [current] else worktrees),
           \<lparr>path = Some (substring line 9), head = None, branch = None,
            isMainWorktree = Some False, isLocked = Some False, prunable = Some False\<rparr>)
        else if startsWith line ''HEAD '' then
          (worktrees, current\<lparr>head := Some (substring line 5)\<rparr>)
        else if startsWith line ''branch '' then
          (worktrees, current\<lparr>branch := Some (replace (substring line 7) ''refs/heads/'' [])\<rparr>)
        else if line = ''bare'' then
          (worktrees, current\<lparr>isMainWorktree := Some True\<rparr>)
        else if line = ''locked'' then
          (worktrees, current\<lparr>isLocked := Some True\<rparr>)
        else if line = ''prunable'' then
          (worktrees, current\<lparr>prunable := Some True\<rparr>)
        else (worktrees, current))"

fun list_loop :: "GitWorktree list \<times> GitWorktree \<Rightarrow> string list \<Rightarrow> GitWorktree list \<times> GitWorktree" where
  "list_loop st [] = st"
| "list_loop st (line # lines) = list_loop (list_step st line) lines"

text \<open>After the loop: the last record is pushed, then the first one is marked as main.\<close>

definition list_finish :: "GitWorktree list \<times> GitWorktree \<Rightarrow> GitWorktree list" where
  "list_finish st =
     (case st of (worktrees, current) \<Rightarrow>
        let worktrees = (if truthy_str (path current) then worktrees @ [current] else worktrees)
        in (case worktrees of
              [] \<Rightarrow> []
            | w # ws \<Rightarrow> w\<lparr>isMainWorktree := Some True\<rparr> # ws))"

definition list_lines :: "string list \<Rightarrow> GitWorktree list" where
  "list_lines lines = list_finish (list_loop ([], empty_worktree) lines)"

text \<open>
  \<^verbatim>\<open>list()\<close>, given what \<^verbatim>\<open>git worktree list --porcelain\<close> answered: the
  rejection of \<^verbatim>\<open>git.raw\<close> is the rejection of \<^verbatim>\<open>list\<close>.
\<close>

definition WorktreeService_list :: "(string list \<Rightarrow> string + string) \<Rightarrow> string + GitWorktree list" where
  "WorktreeService_list raw =
     (case raw [''worktree'', ''list'', ''--porcelain''] of
        Inl err \<Rightarrow> Inl err
      | Inr result \<Rightarrow> Inr (list_lines (split_nl result)))"

text \<open>
  The Git command runner behind \<^verbatim>\<open>this.git.raw\<close> is an external collaborator: a
  parameter that takes the argument vector and the state of the repository, and
  gives back either the error it throws (\<open>Inl\<close>) or its output, with the state it left.
\<close>

type_synonym 'st git_raw = "string list \<Rightarrow> 'st \<Rightarrow> (string + string) \<times> 'st"

record WorktreeRemoveOptions =
  path :: string
  force :: "bool option"
  deleteBranch :: "bool option"
  branch :: "string option"

text \<open>The argument vector \<^verbatim>\<open>args\<close> that \<^verbatim>\<open>remove\<close> builds.\<close>

definition remove_args :: "WorktreeRemoveOptions \<Rightarrow> string list" where
  "remove_args options =
     [''worktree'', ''remove'']
       @ (if truthy_bool (force options) then [''--force''] else [])
       @ [WorktreeRemoveOptions.path options]"

definition branch_delete_args :: "string \<Rightarrow> string list" where
  "branch_delete_args b = [''branch'', ''-D'', b]"

text \<open>\<^verbatim>\<open>remove(options)\<close>: each \<^verbatim>\<open>await\<close> either goes on or leaves with the error.\<close>

definition WorktreeService_remove ::
    "'st git_raw \<Rightarrow> WorktreeRemoveOptions \<Rightarrow> 'st \<Rightarrow> (string + unit) \<times> 'st" where
  "WorktreeService_remove raw options s =
     (case raw (remove_args options) s of
        (Inl err, s1) \<Rightarrow> (Inl err, s1)
      | (Inr out1, s1) \<Rightarrow>
          if truthy_bool (deleteBranch options) \<and> truthy_str (WorktreeRemoveOptions.branch options) then
            (case WorktreeRemoveOptions.branch options of
               None \<Rightarrow> (Inr (), s1)
             | Some b \<Rightarrow>
                 (case raw (branch_delete_args b) s1 of
                    (Inl err, s2) \<Rightarrow> (Inl err, s2)
                  | (Inr out2, s2) \<Rightarrow> (Inr (), s2)))
          else (Inr (), s1))"

text \<open>
  A runner that also writes down every argument vector it is called with, in
  order: what \<^verbatim>\<open>remove\<close> executes is read from this log.
\<close>

definition recording :: "'st git_raw \<Rightarrow> ('st \<times> string list list) git_raw" where
  "recording raw args st =
     (case st of (s, log) \<Rightarrow>
        (case raw args s of (r, s') \<Rightarrow> (r, (s', log @ [args]))))"

text \<open>
  A test double for the runner, to run \<^verbatim>\<open>remove\<close> on concrete inputs: a repository
  is its worktree paths and its branch names; removing a worktree or a branch
  that is not there fails.
\<close>

record toy_repo =
  toy_worktrees :: "string list"
  toy_branches :: "string list"

definition toy_remove_worktree :: "string \<Rightarrow> toy_repo \<Rightarrow> (string + string) \<times> toy_repo" where
  "toy_remove_worktree p s =
     (if p \<in> set (toy_worktrees s)
      then (Inr [], s\<lparr>toy_worktrees := removeAll p (toy_worktrees s)\<rparr>)
      else (Inl ''fatal: not a working tree'', s))"

definition toy_git :: "toy_repo git_raw" where
  "toy_git args s =
     (case args of
        [a, b, c] \<Rightarrow>
          if a = ''worktree'' \<and> b = ''remove'' then toy_remove_worktree c s
          else if a = ''branch'' \<and> b = ''-D'' then
            (if c \<in> set (toy_branches s)
             then (Inr [], s\<lparr>toy_branches := removeAll c (toy_branches s)\<rparr>)
             else (Inl ''error: branch not found'', s))
          else (Inl ''usage'', s)
      | [a, b, c, d] \<Rightarrow>
          if a = ''worktree'' \<and> b = ''remove'' \<and> c = ''--force'' then toy_remove_worktree d s
          else (Inl ''usage'', s)
      | _ \<Rightarrow> (Inl ''usage'', s))"

section \<open>Blob lookup: \<^verbatim>\<open>gitShowBuffer\<close>, \<^verbatim>\<open>gitShow\<close>, \<^verbatim>\<open>decodeBuffer\<close>\<close>

type_synonym buffer = "8 word list"

text \<open>A promise is pending until its first settlement; later settlements are ignored.\<close>

datatype 'a promise = Pending | Resolved 'a | Rejected string

definition resolve :: "'a \<Rightarrow> 'a promise \<Rightarrow> 'a promise" where
  "resolve v p = (case p of Pending \<Rightarrow> Resolved v | Resolved w \<Rightarrow> Resolved w | Rejected e \<Rightarrow> Rejected e)"

text \<open>
  The child process that \<^verbatim>\<open>spawnGit\<close> hands back is known by the events it
  emits, in order: a chunk on \<^verbatim>\<open>stdout\<close>, \<^verbatim>\<open>close\<close> with the exit code
  (\<^verbatim>\<open>null\<close>, here \<open>None\<close>, when a signal ended the process), or \<^verbatim>\<open>error\<close>.
\<close>

datatype proc_event = StdoutData buffer | Close "int option" | ProcError string

text \<open>The three handlers of \<^verbatim>\<open>gitShowBuffer\<close>, on the pair \<open>(chunks, promise)\<close>.\<close>

fun on_event :: "buffer list \<times> buffer promise \<Rightarrow> proc_event \<Rightarrow> buffer list \<times> buffer promise" where
  "on_event (chunks, p) (StdoutData chunk) = (chunks @ [chunk], p)"
| "on_event (chunks, p) (Close code) =
     (if code \<noteq> Some 0 \<or> length chunks = 0 then (chunks, resolve [] p)
      else (chunks, resolve (concat chunks) p))"
| "on_event (chunks, p) (ProcError e) = (chunks, resolve [] p)"

text \<open>
  \<^verbatim>\<open>spawnGit\<close> (module \<^verbatim>\<open>./runtime\<close>) is a parameter: for a working directory and
  an argument vector, the events of the process it started.
\<close>

definition gitShowBuffer ::
    "(string \<Rightarrow> string list \<Rightarrow> proc_event list) \<Rightarrow> string \<Rightarrow> string \<Rightarrow> buffer promise" where
  "gitShowBuffer spawnGit workdir ref =
     snd (foldl on_event ([], Pending) (spawnGit workdir [''show'', ref]))"

text \<open>
  \<^verbatim>\<open>jschardet.detect\<close> and \<^verbatim>\<open>iconv.decode\<close> are parameters; \<open>detect\<close>
  gives \<open>None\<close> where \<^verbatim>\<open>detected?.encoding\<close> is missing.  \<^verbatim>\<open>iconv.decode\<close>
  throws on an encoding it does not know (\<open>Inl\<close>, with the message), and nothing in
  \<^verbatim>\<open>decodeBuffer\<close> catches that: its throw is the throw of \<^verbatim>\<open>decodeBuffer\<close>.
\<close>

definition decodeBuffer ::
    "(buffer \<Rightarrow> string option) \<Rightarrow> (buffer \<Rightarrow> string \<Rightarrow> string + string) \<Rightarrow> buffer \<Rightarrow> string + string" where
  "decodeBuffer detect decode buffer =
     (if length buffer = 0 then Inr []
      else
        let encoding = (if truthy_str (detect buffer)
                        then (case detect buffer of Some e \<Rightarrow> e | None \<Rightarrow> ''utf-8'')
                        else ''utf-8'')
        in decode buffer encoding)"

text \<open>
  \<^verbatim>\<open>gitShow\<close> awaits the buffer and decodes it; it is an \<^verbatim>\<open>async\<close> function
  without a \<^verbatim>\<open>catch\<close>, so a throw of \<^verbatim>\<open>decodeBuffer\<close> rejects its promise.
\<close>

definition gitShow ::
    "(buffer \<Rightarrow> string option) \<Rightarrow> (buffer \<Rightarrow> string \<Rightarrow> string + string) \<Rightarrow>
     (string \<Rightarrow> string list \<Rightarrow> proc_event list) \<Rightarrow> string \<Rightarrow> string \<Rightarrow> string promise" where
  "gitShow detect decode spawnGit workdir ref =
     (case gitShowBuffer spawnGit workdir ref of
        Pending \<Rightarrow> Pending
      | Rejected e \<Rightarrow> Rejected e
      | Resolved buffer \<Rightarrow>
          (case decodeBuffer detect decode buffer of
             Inl err \<Rightarrow> Rejected err
           | Inr text \<Rightarrow> Resolved text))"

definition terminal :: "proc_event \<Rightarrow> bool" where
  "terminal ev = (case ev of StdoutData chunk \<Rightarrow> False | Close code \<Rightarrow> True | ProcError e \<Rightarrow> True)"

text \<open>
  The lookup produced no content: after the chunks \<open>chunks\<close>, the process failed to
  start, or closed with an exit code other than 0, or closed with nothing on
  \<^verbatim>\<open>stdout\<close>.
\<close>

definition lookup_failed :: "buffer list \<Rightarrow> proc_event \<Rightarrow> bool" where
  "lookup_failed chunks ev =
     (case ev of
        StdoutData chunk \<Rightarrow> False
      | Close code \<Rightarrow> code \<noteq> Some 0 \<or> concat chunks = []
      | ProcError e \<Rightarrow> True)"

section \<open>Merge types (\<^verbatim>\<open>shared/types\<close>)\<close>

datatype MergeStrategy = Merge | Squash | Rebase

datatype ConflictType = Content | Binary | Rename | Delete

record MergeConflict =
  conflict_file :: string
  conflict_type :: ConflictType

datatype StashStatus = StashNone | Stashed | Applied | StashConflict

record WorktreeMergeOptions =
  worktreePath :: string
  targetBranch :: string
  strategy :: MergeStrategy
  noFf :: "bool option"
  message :: "string option"
  deleteWorktreeAfterMerge :: "bool option"
  deleteBranchAfterMerge :: "bool option"
  autoStash :: "bool option"

record WorktreeMergeResult =
  success :: bool
  merged :: bool
  conflicts :: "MergeConflict list option"
  commitHash :: "string option"
  error :: "string option"
  warnings :: "string list option"
  mainStashStatus :: "StashStatus option"
  worktreeStashStatus :: "StashStatus option"
  mainWorktreePath :: "string option"
  worktreePath :: "string option"

record WorktreeMergeCleanupOptions =
  worktreePath :: "string option"
  sourceBranch :: "string option"
  deleteWorktreeAfterMerge :: "bool option"
  deleteBranchAfterMerge :: "bool option"

section \<open>The merge handlers of the renderer (\<^verbatim>\<open>App.tsx\<close>)\<close>

text \<open>
  What the handlers read and write: the selected repository, the merge state of
  \<^verbatim>\<open>useMergeState\<close> (each setter stores its argument), the toasts and refetches
  they ask for, in order, and the main process with the repository behind it
  (\<open>backend\<close>), which the handlers reach through the mutations only.
\<close>

datatype toast_type = Info | Warning

datatype ui_effect = Toast toast_type string string | Refetch | RefetchBranches

record 'b App =
  selectedRepo :: "string option"
  mergeDialogOpen :: bool
  mergeWorktree :: "GitWorktree option"
  mergeConflicts :: "WorktreeMergeResult option"
  pendingMergeOptions :: "WorktreeMergeCleanupOptions option"
  effects :: "ui_effect list"
  backend :: 'b

text \<open>
  The mutations are parameters: \<^verbatim>\<open>mergeMutation.mutateAsync\<close> and
  \<^verbatim>\<open>continueMergeMutation.mutateAsync\<close> answer with a result or reject (\<open>Inl\<close>),
  and leave the backend in a new state.
\<close>

type_synonym 'b merge_mutation =
  "string \<Rightarrow> WorktreeMergeOptions \<Rightarrow> 'b \<Rightarrow> (string + WorktreeMergeResult) \<times> 'b"

type_synonym 'b continue_mutation =
  "string \<Rightarrow> string \<Rightarrow> WorktreeMergeCleanupOptions option \<Rightarrow> 'b \<Rightarrow> (string + WorktreeMergeResult) \<times> 'b"

definition no_repository_result :: WorktreeMergeResult where
  "no_repository_result =
     \<lparr>success = False, merged = False, conflicts = None, commitHash = None,
      error = Some ''No repository selected'', warnings = None,
      mainStashStatus = None, worktreeStashStatus = None,
      mainWorktreePath = None, WorktreeMergeResult.worktreePath = None\<rparr>"

definition handleMerge ::
    "'b merge_mutation \<Rightarrow> WorktreeMergeOptions \<Rightarrow> 'b App \<Rightarrow> (string + WorktreeMergeResult) \<times> 'b App" where
  "handleMerge mutateAsync options a =
     (if \<not> truthy_str (selectedRepo a) then (Inr no_repository_result, a)
      else
        (case selectedRepo a of
           None \<Rightarrow> (Inr no_repository_result, a)
         | Some workdir \<Rightarrow>
             (case mutateAsync workdir options (backend a) of
                (r, b) \<Rightarrow> (r, a\<lparr>backend := b\<rparr>))))"

text \<open>\<^verbatim>\<open>mergeWorktree?.branch || ''\<close>\<close>

definition merge_source_branch :: "GitWorktree option \<Rightarrow> string" where
  "merge_source_branch w =
     (case w of
        None \<Rightarrow> []
      | Some wt \<Rightarrow> (case GitWorktree.branch wt of None \<Rightarrow> [] | Some b \<Rightarrow> b))"

text \<open>\<^verbatim>\<open>stashedPaths.join('\n')\<close>\<close>

fun join_nl :: "string list \<Rightarrow> string" where
  "join_nl [] = []"
| "join_nl [p] = p"
| "join_nl (p # q # ps) = p @ [CHR 0x0A] @ join_nl (q # ps)"

definition stashed_paths :: "WorktreeMergeResult \<Rightarrow> string list" where
  "stashed_paths result =
     (if mainStashStatus result = Some Stashed \<and> truthy_str (mainWorktreePath result)
      then (case mainWorktreePath result of None \<Rightarrow> [] | Some p \<Rightarrow> [p]) else [])
     @ (if worktreeStashStatus result = Some Stashed \<and> truthy_str (WorktreeMergeResult.worktreePath result)
        then (case WorktreeMergeResult.worktreePath result of None \<Rightarrow> [] | Some p \<Rightarrow> [p]) else [])"

text \<open>The object stored by \<^verbatim>\<open>setPendingMergeOptions\<close> in \<^verbatim>\<open>handleMergeConflicts\<close>.\<close>

definition cleanup_snapshot :: "WorktreeMergeOptions \<Rightarrow> GitWorktree option \<Rightarrow> WorktreeMergeCleanupOptions" where
  "cleanup_snapshot options w =
     \<lparr>WorktreeMergeCleanupOptions.worktreePath = Some (WorktreeMergeOptions.worktreePath options),
      sourceBranch = Some (merge_source_branch w),
      WorktreeMergeCleanupOptions.deleteWorktreeAfterMerge =
        WorktreeMergeOptions.deleteWorktreeAfterMerge options,
      WorktreeMergeCleanupOptions.deleteBranchAfterMerge =
        WorktreeMergeOptions.deleteBranchAfterMerge options\<rparr>"

text \<open>\<open>t\<close> is the translation function of the user interface.\<close>

definition handleMergeConflicts ::
    "(string \<Rightarrow> string) \<Rightarrow> WorktreeMergeResult \<Rightarrow> WorktreeMergeOptions \<Rightarrow> 'b App \<Rightarrow> 'b App" where
  "handleMergeConflicts t result options a =
     (let a1 = a\<lparr>mergeDialogOpen := False\<rparr>;
          a2 = a1\<lparr>mergeConflicts := Some result\<rparr>;
          a3 = a2\<lparr>pendingMergeOptions := Some (cleanup_snapshot options (mergeWorktree a))\<rparr>;
          stashedPaths = stashed_paths result
      in if length stashedPaths > 0 then
           a3\<lparr>effects := effects a3 @
             [Toast Info (t ''Changes stashed'')
                (t (''Your uncommitted changes were stashed. After resolving conflicts, run ''
                      @ [CHR 0x22] @ ''git stash pop'' @ [CHR 0x22] @ '' in:'')
                 @ [CHR 0x0A] @ join_nl stashedPaths)]\<rparr>
         else a3)"

definition handleCompleteMerge ::
    "(string \<Rightarrow> string) \<Rightarrow> 'b continue_mutation \<Rightarrow> string \<Rightarrow> 'b App \<Rightarrow> (string + unit) \<times> 'b App" where
  "handleCompleteMerge t mutateAsync msg a =
     (if \<not> truthy_str (selectedRepo a) then (Inr (), a)
      else
        (case selectedRepo a of
           None \<Rightarrow> (Inr (), a)
         | Some workdir \<Rightarrow>
             (case mutateAsync workdir msg (pendingMergeOptions a) (backend a) of
                (Inl err, b) \<Rightarrow> (Inl err, a\<lparr>backend := b\<rparr>)
              | (Inr result, b) \<Rightarrow>
                  let a0 = a\<lparr>backend := b\<rparr> in
                  if success result then
                    let a1 = (case warnings result of
                                None \<Rightarrow> a0
                              | Some ws \<Rightarrow>
                                  if length ws > 0 then
                                    a0\<lparr>effects := effects a0 @
                                      [Toast Warning (t ''Merge completed with warnings'') (join_nl ws)]\<rparr>
                                  else a0);
                        a2 = a1\<lparr>mergeConflicts := None\<rparr>;
                        a3 = a2\<lparr>pendingMergeOptions := None\<rparr>
                    in (Inr (), a3\<lparr>effects := effects a3 @ [Refetch, RefetchBranches]\<rparr>)
                  else (Inr (), a0))))"

text \<open>
  A mutation that also writes down the arguments of every call it receives.
\<close>

datatype continue_call = ContinueMerge string string "WorktreeMergeCleanupOptions option"

definition recording_continue :: "'b continue_mutation \<Rightarrow> ('b \<times> continue_call list) continue_mutation" where
  "recording_continue mutateAsync workdir msg cleanupOptions st =
     (case st of (b, log) \<Rightarrow>
        (case mutateAsync workdir msg cleanupOptions b of
           (r, b') \<Rightarrow> (r, (b', log @ [ContinueMerge workdir msg cleanupOptions]))))"

section \<open>The merge engine of the main process\<close>

text \<open>
  Modelled from the spec: the merge engine of the main process
  (\<^verbatim>\<open>mergeWorktree\<close> and \<^verbatim>\<open>continueMerge\<close> behind the two mutations), whose code
  is not among the sources.  The repository is the path of the main worktree, the
  worktrees with the branch each has checked out, and the branch names.  What Git
  reports for the merge or the commit is a parameter, named after the error
  taxonomy of the specification.  The stash phase changes neither worktrees nor
  branches and is left out: a stash that fails is an \<open>ExecutionError\<close>.
\<close>

record repo =
  repo_main :: string
  repo_worktrees :: "(string \<times> string option) list"
  repo_branches :: "string list"

datatype git_report = ExecutionError string | ConflictPending "MergeConflict list" | Completed string

text \<open>
  Modelled from the spec: the \<^verbatim>\<open>MergeResult\<close> that the engine answers with; of its
  fields, \<^verbatim>\<open>success\<close>, \<^verbatim>\<open>merged\<close>, \<^verbatim>\<open>conflicts\<close>, \<^verbatim>\<open>commitHash\<close> and
  \<^verbatim>\<open>error\<close> are set.
\<close>

definition engine_result ::
    "bool \<Rightarrow> bool \<Rightarrow> MergeConflict list option \<Rightarrow> string option \<Rightarrow> string option \<Rightarrow> WorktreeMergeResult" where
  "engine_result ok mrg cs h e =
     \<lparr>success = ok, merged = mrg, conflicts = cs, commitHash = h, error = e, warnings = None,
      mainStashStatus = None, worktreeStashStatus = None,
      mainWorktreePath = None, WorktreeMergeResult.worktreePath = None\<rparr>"

text \<open>
  Modelled from the spec: cleanup, step 6 of the algorithm: ``if
  \<^verbatim>\<open>deleteBranchAfterMerge\<close>, delete the source branch; if
  \<^verbatim>\<open>deleteWorktreeAfterMerge\<close>, remove the source worktree (never the main one)''.
\<close>

definition cleanup_spec :: "WorktreeMergeCleanupOptions \<Rightarrow> repo \<Rightarrow> repo" where
  "cleanup_spec c r =
     (let r1 = (if truthy_bool (WorktreeMergeCleanupOptions.deleteBranchAfterMerge c) then
                  (case sourceBranch c of
                     None \<Rightarrow> r
                   | Some b \<Rightarrow> r\<lparr>repo_branches := removeAll b (repo_branches r)\<rparr>)
                else r)
      in if truthy_bool (WorktreeMergeCleanupOptions.deleteWorktreeAfterMerge c) then
           (case WorktreeMergeCleanupOptions.worktreePath c of
              None \<Rightarrow> r1
            | Some p \<Rightarrow>
                if p = repo_main r1 then r1
                else r1\<lparr>repo_worktrees := filter (\<lambda>w. fst w \<noteq> p) (repo_worktrees r1)\<rparr>)
         else r1)"

text \<open>
  Modelled from the spec: \<^verbatim>\<open>merge(request)\<close>, steps 1 and 3 to 6: the pre-check
  fails fast; conflicts give \<^verbatim>\<open>success = true, merged = false\<close> and the list;
  cleanup runs only when the merge completed.
\<close>

definition mergeWorktree_spec :: "git_report \<Rightarrow> repo merge_mutation" where
  "mergeWorktree_spec report workdir request r =
     (case map_of (repo_worktrees r) (WorktreeMergeOptions.worktreePath request) of
        None \<Rightarrow> (Inr (engine_result False False None None (Some ''source worktree not found'')), r)
      | Some src \<Rightarrow>
          if map_of (repo_worktrees r) (repo_main r) = None then
            (Inr (engine_result False False None None (Some ''main worktree not found'')), r)
          else if src = Some (targetBranch request) then
            (Inr (engine_result False False None None (Some ''cannot merge a branch into itself'')), r)
          else
            (case report of
               ExecutionError e \<Rightarrow> (Inr (engine_result False False None None (Some e)), r)
             | ConflictPending cs \<Rightarrow> (Inr (engine_result True False (Some cs) None None), r)
             | Completed h \<Rightarrow>
                 (Inr (engine_result True True None (Some h) None),
                  cleanup_spec
                    \<lparr>WorktreeMergeCleanupOptions.worktreePath =
                        Some (WorktreeMergeOptions.worktreePath request),
                     sourceBranch = src,
                     WorktreeMergeCleanupOptions.deleteWorktreeAfterMerge =
                       WorktreeMergeOptions.deleteWorktreeAfterMerge request,
                     WorktreeMergeCleanupOptions.deleteBranchAfterMerge =
                       WorktreeMergeOptions.deleteBranchAfterMerge request\<rparr> r)))"

text \<open>
  Modelled from the spec: \<^verbatim>\<open>continueMerge(message, cleanupOptions)\<close>: remaining
  unresolved paths give \<^verbatim>\<open>merged = false\<close> again with the list; on success the
  cleanup of step 6 runs on the snapshot it was given.
\<close>

definition continueMerge_spec :: "git_report \<Rightarrow> repo continue_mutation" where
  "continueMerge_spec report workdir msg cleanupOptions r =
     (case report of
        ExecutionError e \<Rightarrow> (Inr (engine_result False False None None (Some e)), r)
      | ConflictPending cs \<Rightarrow> (Inr (engine_result True False (Some cs) None None), r)
      | Completed h \<Rightarrow>
          (Inr (engine_result True True None (Some h) None),
           (case cleanupOptions of None \<Rightarrow> r | Some c \<Rightarrow> cleanup_spec c r)))"

section \<open>Concrete inputs\<close>

text \<open>
  A merge of the worktree \<^verbatim>\<open>/wt\<close> (branch \<^verbatim>\<open>feature\<close>) into \<^verbatim>\<open>main\<close> of the
  repository \<^verbatim>\<open>/repo\<close>, with both deletions requested, that ends in one content
  conflict: the inputs at which the properties of the handlers are exercised.
\<close>

definition demo_options :: WorktreeMergeOptions where
  "demo_options =
     \<lparr>WorktreeMergeOptions.worktreePath = ''/wt'', targetBranch = ''main'', strategy = Merge,
      noFf = None, message = None,
      WorktreeMergeOptions.deleteWorktreeAfterMerge = Some True,
      WorktreeMergeOptions.deleteBranchAfterMerge = Some True, autoStash = None\<rparr>"

definition demo_conflict :: MergeConflict where
  "demo_conflict = \<lparr>conflict_file = ''a.txt'', conflict_type = Content\<rparr>"

definition demo_result :: WorktreeMergeResult where
  "demo_result =
     \<lparr>success = True, merged = False, conflicts = Some [demo_conflict], commitHash = None,
      error = None, warnings = None, mainStashStatus = None, worktreeStashStatus = None,
      mainWorktreePath = None, WorktreeMergeResult.worktreePath = None\<rparr>"

definition demo_worktree :: GitWorktree where
  "demo_worktree =
     \<lparr>GitWorktree.path = Some ''/wt'', head = Some ''abc'', GitWorktree.branch = Some ''feature'',
      isMainWorktree = Some False, isLocked = Some False, prunable = Some False\<rparr>"

definition demo_snapshot :: WorktreeMergeCleanupOptions where
  "demo_snapshot =
     \<lparr>WorktreeMergeCleanupOptions.worktreePath = Some ''/wt'', sourceBranch = Some ''feature'',
      WorktreeMergeCleanupOptions.deleteWorktreeAfterMerge = Some True,
      WorktreeMergeCleanupOptions.deleteBranchAfterMerge = Some True\<rparr>"

definition demo_app :: "'b \<Rightarrow> 'b App" where
  "demo_app b =
     \<lparr>selectedRepo = Some ''/repo'', mergeDialogOpen = True, mergeWorktree = Some demo_worktree,
      mergeConflicts = None, pendingMergeOptions = None, effects = [], backend = b\<rparr>"

definition demo_repo :: repo where
  "demo_repo =
     \<lparr>repo_main = ''/repo'',
      repo_worktrees = [(''/repo'', Some ''main''), (''/wt'', Some ''feature'')],
      repo_branches = [''main'', ''feature'']\<rparr>"

text \<open>A continue mutation that always answers \<^verbatim>\<open>success = false\<close>, and counts its calls.\<close>

definition demo_failing_continue :: "nat continue_mutation" where
  "demo_failing_continue workdir msg cleanupOptions n = (Inr no_repository_result, Suc n)"

section \<open>Notions used to state the properties of \<^verbatim>\<open>list\<close>\<close>

text \<open>A line opens a record when it starts with \<^verbatim>\<open>worktree \<close> and a path follows.\<close>

definition opens_record :: "string \<Rightarrow> bool" where
  "opens_record line = (startsWith line ''worktree '' \<and> substring line 9 \<noteq> [])"

definition is_main :: "GitWorktree \<Rightarrow> bool" where
  "is_main w = (isMainWorktree w = Some True)"

text \<open>The records that are complete at a point of the loop: the pushed ones and the current one, if it has a path.\<close>

definition pending :: "GitWorktree list \<times> GitWorktree \<Rightarrow> GitWorktree list" where
  "pending st =
     (case st of (worktrees, current) \<Rightarrow>
        if truthy_str (GitWorktree.path current) then worktrees @ [current] else worktrees)"

definition mark_first :: "GitWorktree list \<Rightarrow> GitWorktree list" where
  "mark_first ws = (case ws of [] \<Rightarrow> [] | w # ws' \<Rightarrow> w\<lparr>isMainWorktree := Some True\<rparr> # ws')"

text \<open>Up to the second record: nothing is pushed yet, or the one record is and the current object has no path.\<close>

definition first_phase :: "GitWorktree list \<times> GitWorktree \<Rightarrow> bool" where
  "first_phase st =
     (case st of (worktrees, current) \<Rightarrow>
        (worktrees = [] \<and> truthy_str (GitWorktree.path current))
        \<or> (length worktrees = 1 \<and> \<not> truthy_str (GitWorktree.path current)))"

text \<open>From the second record on, as long as no \<^verbatim>\<open>bare\<close> line is read.\<close>

definition later_phase :: "GitWorktree list \<times> GitWorktree \<Rightarrow> bool" where
  "later_phase st =
     (case st of (worktrees, current) \<Rightarrow>
        worktrees \<noteq> [] \<and> (\<forall>w \<in> set (tl worktrees). \<not> is_main w) \<and> \<not> is_main current)"

text \<open>Two loop states that give the same listing in the end.\<close>

definition same_listing :: "GitWorktree list \<times> GitWorktree \<Rightarrow> GitWorktree list \<times> GitWorktree \<Rightarrow> bool" where
  "same_listing st st' =
     (fst st = fst st' \<and>
      (snd st = snd st' \<or>
       (\<not> truthy_str (GitWorktree.path (snd st)) \<and> \<not> truthy_str (GitWorktree.path (snd st')))))"

section \<open>Properties of \<^verbatim>\<open>list\<close>\<close>

subsection \<open>The loop, one line at a time\<close>

lemma list_finish_pending: "list_finish st = mark_first (pending st)"
  by (cases st) (simp add: list_finish_def pending_def mark_first_def Let_def)

lemma path_mark_first: "map GitWorktree.path (mark_first ws) = map GitWorktree.path ws"
  by (cases ws) (simp_all add: mark_first_def)

lemma step_worktree:
  "startsWith l ''worktree '' \<Longrightarrow>
   list_step (ws, cur) l =
     ((if truthy_str (GitWorktree.path cur) then ws @ [cur] else ws),
      \<lparr>GitWorktree.path = Some (substring l 9), head = None, GitWorktree.branch = None,
       isMainWorktree = Some False, isLocked = Some False, prunable = Some False\<rparr>)"
  by (simp add: list_step_def)

lemma step_other:
  "\<not> startsWith l ''worktree '' \<Longrightarrow>
   \<exists>cur'. list_step (ws, cur) l = (ws, cur') \<and> GitWorktree.path cur' = GitWorktree.path cur
      \<and> (l \<noteq> ''bare'' \<longrightarrow> isMainWorktree cur' = isMainWorktree cur)"
  by (simp add: list_step_def)

lemma step_other_eq:
  "\<not> startsWith l ''worktree '' \<Longrightarrow> fst (list_step (ws, cur) l) = ws"
  using step_other[of l ws cur] by auto

lemma pending_step:
  "map GitWorktree.path (pending (list_step st l)) =
     map GitWorktree.path (pending st) @ (if opens_record l then [Some (substring l 9)] else [])"
proof (cases st)
  case (Pair ws cur)
  show ?thesis
  proof (cases "startsWith l ''worktree ''")
    case True
    then show ?thesis
      by (simp add: Pair step_worktree pending_def opens_record_def truthy_str_def)
  next
    case False
    then obtain cur' where "list_step (ws, cur) l = (ws, cur')" "GitWorktree.path cur' = GitWorktree.path cur"
      using step_other by blast
    with False show ?thesis
      by (simp add: Pair pending_def opens_record_def)
  qed
qed

lemma pending_loop:
  "map GitWorktree.path (pending (list_loop st ls)) =
     map GitWorktree.path (pending st) @ map (\<lambda>l. Some (substring l 9)) (filter opens_record ls)"
  by (induction ls arbitrary: st) (simp_all add: pending_step)

lemma pending_empty: "pending ([], empty_worktree) = []"
  by (simp add: pending_def empty_worktree_def truthy_str_def)

lemma list_lines_paths:
  "map GitWorktree.path (list_lines ls) = map (\<lambda>l. Some (substring l 9)) (filter opens_record ls)"
  by (simp add: list_lines_def list_finish_pending path_mark_first pending_loop pending_empty)

lemma list_loop_append: "list_loop st (xs @ ys) = list_loop (list_loop st xs) ys"
  by (induction xs arbitrary: st) simp_all

lemma same_listing_step: "same_listing st st' \<Longrightarrow> same_listing (list_step st l) (list_step st' l)"
proof (cases st; cases st')
  fix ws cur ws' cur'
  assume st: "st = (ws, cur)" "st' = (ws', cur')" and s: "same_listing st st'"
  show ?thesis
  proof (cases "startsWith l ''worktree ''")
    case True
    with s show ?thesis
      by (auto simp: st step_worktree same_listing_def)
  next
    case False
    obtain c1 where c1: "list_step (ws, cur) l = (ws, c1)" "GitWorktree.path c1 = GitWorktree.path cur"
      using step_other[OF False] by blast
    obtain c2 where c2: "list_step (ws', cur') l = (ws', c2)" "GitWorktree.path c2 = GitWorktree.path cur'"
      using step_other[OF False] by blast
    from s c1 c2 show ?thesis
      by (auto simp: st same_listing_def)
  qed
qed

lemma same_listing_loop: "same_listing st st' \<Longrightarrow> same_listing (list_loop st ls) (list_loop st' ls)"
  by (induction ls arbitrary: st st') (simp_all add: same_listing_step)

lemma same_listing_finish: "same_listing st st' \<Longrightarrow> list_finish st = list_finish st'"
  by (cases st; cases st') (auto simp: same_listing_def list_finish_pending pending_def)

lemma skip_step:
  "\<not> opens_record l \<Longrightarrow> \<not> truthy_str (GitWorktree.path cur) \<Longrightarrow>
   \<exists>cur'. list_step ([], cur) l = ([], cur') \<and> \<not> truthy_str (GitWorktree.path cur')"
proof (cases "startsWith l ''worktree ''")
  case True
  assume "\<not> opens_record l" "\<not> truthy_str (GitWorktree.path cur)"
  with True show ?thesis
    by (simp add: step_worktree opens_record_def truthy_str_def)
next
  case False
  assume "\<not> truthy_str (GitWorktree.path cur)"
  with step_other[OF False, of "[]" cur] show ?thesis by auto
qed

lemma skip_loop:
  "\<forall>l \<in> set pre. \<not> opens_record l \<Longrightarrow> \<not> truthy_str (GitWorktree.path cur) \<Longrightarrow>
   \<exists>cur'. list_loop ([], cur) pre = ([], cur') \<and> \<not> truthy_str (GitWorktree.path cur')"
proof (induction pre arbitrary: cur)
  case Nil
  then show ?case by simp
next
  case (Cons l pre)
  then obtain c where c: "list_step ([], cur) l = ([], c)" "\<not> truthy_str (GitWorktree.path c)"
    using skip_step[of l cur] by auto
  with Cons.IH[of c] Cons.prems show ?case by simp
qed

lemma empty_not_truthy: "\<not> truthy_str (GitWorktree.path empty_worktree)"
  by (simp add: empty_worktree_def truthy_str_def)

lemma list_lines_skip:
  assumes "\<forall>l \<in> set pre. \<not> opens_record l"
  shows "list_lines (pre @ rest) = list_lines rest"
proof -
  obtain c where c: "list_loop ([], empty_worktree) pre = ([], c)" "\<not> truthy_str (GitWorktree.path c)"
    using skip_loop[OF assms empty_not_truthy] by blast
  have "same_listing ([], c) ([], empty_worktree)"
    using c(2) empty_not_truthy by (simp add: same_listing_def)
  then have "list_finish (list_loop ([], c) rest) = list_finish (list_loop ([], empty_worktree) rest)"
    by (intro same_listing_finish same_listing_loop)
  then show ?thesis
    by (simp add: list_lines_def list_loop_append c(1))
qed


lemma first_phase_step:
  assumes "first_phase st" "\<not> opens_record l"
  shows "first_phase (list_step st l)"
proof (cases st)
  case (Pair ws cur)
  show ?thesis
  proof (cases "startsWith l ''worktree ''")
    case True
    with assms show ?thesis
      by (auto simp: Pair step_worktree first_phase_def opens_record_def truthy_str_def)
  next
    case False
    obtain c where "list_step (ws, cur) l = (ws, c)" "GitWorktree.path c = GitWorktree.path cur"
      using step_other[OF False] by blast
    with assms(1) show ?thesis
      by (simp add: Pair first_phase_def)
  qed
qed

lemma first_phase_loop:
  "first_phase st \<Longrightarrow> \<forall>l \<in> set mid. \<not> opens_record l \<Longrightarrow> first_phase (list_loop st mid)"
  by (induction mid arbitrary: st) (simp_all add: first_phase_step)

lemma fresh_not_main:
  "\<not> is_main \<lparr>GitWorktree.path = p, head = None, GitWorktree.branch = None,
       isMainWorktree = Some False, isLocked = Some False, prunable = Some False\<rparr>"
  by (simp add: is_main_def)

lemma phases_step:
  assumes "first_phase st \<or> later_phase st" "l \<noteq> ''bare''"
  shows "first_phase (list_step st l) \<or> later_phase (list_step st l)"
proof (cases st)
  case (Pair ws cur)
  show ?thesis
  proof (cases "startsWith l ''worktree ''")
    case True
    have "later_phase (list_step (ws, cur) l)"
      using assms(1)
      by (auto simp: Pair step_worktree[OF True] first_phase_def later_phase_def fresh_not_main
          length_Suc_conv)
    then show ?thesis by (simp add: Pair)
  next
    case False
    obtain c where c: "list_step (ws, cur) l = (ws, c)" "GitWorktree.path c = GitWorktree.path cur"
        "isMainWorktree c = isMainWorktree cur"
      using step_other[OF False, of ws cur] assms(2) by blast
    with assms(1) show ?thesis
      by (simp add: Pair first_phase_def later_phase_def is_main_def)
  qed
qed

lemma phases_loop:
  "first_phase st \<or> later_phase st \<Longrightarrow> ''bare'' \<notin> set rest \<Longrightarrow>
   first_phase (list_loop st rest) \<or> later_phase (list_loop st rest)"
proof (induction rest arbitrary: st)
  case Nil
  then show ?case by simp
next
  case (Cons l rest)
  from Cons.prems have "l \<noteq> ''bare''" "''bare'' \<notin> set rest" by auto
  with Cons.prems(1) Cons.IH[of "list_step st l"] phases_step[of st l] show ?case by simp
qed

lemma main_mark_first:
  "ws \<noteq> [] \<Longrightarrow> \<forall>w \<in> set (tl ws). \<not> is_main w \<Longrightarrow> filter is_main (mark_first ws) = [hd (mark_first ws)]"
  by (cases ws) (simp_all add: mark_first_def is_main_def)

lemma phases_finish:
  assumes "first_phase st \<or> later_phase st"
  shows "length (filter is_main (list_finish st)) = 1"
proof (cases st)
  case (Pair ws cur)
  have "pending st \<noteq> [] \<and> (\<forall>w \<in> set (tl (pending st)). \<not> is_main w)"
    using assms
    by (auto simp: Pair first_phase_def later_phase_def pending_def length_Suc_conv)
  then show ?thesis
    by (simp add: list_finish_pending main_mark_first)
qed

lemma first_is_main: "list_finish st \<noteq> [] \<Longrightarrow> isMainWorktree (hd (list_finish st)) = Some True"
  by (cases "pending st") (simp_all add: list_finish_pending mark_first_def)

lemma list_lines_one_main:
  assumes pre: "\<forall>l \<in> set pre. \<not> opens_record l" and w: "opens_record w"
    and mid: "\<forall>l \<in> set mid. \<not> opens_record l" and rest: "''bare'' \<notin> set rest"
  shows "length (filter is_main (list_lines (pre @ w # mid @ rest))) = 1"
proof -
  obtain c where c: "list_loop ([], empty_worktree) pre = ([], c)" "\<not> truthy_str (GitWorktree.path c)"
    using skip_loop[OF pre empty_not_truthy] by blast
  have "first_phase (list_step ([], c) w)"
    using w c(2) by (simp add: opens_record_def step_worktree first_phase_def truthy_str_def)
  then have "first_phase (list_loop (list_step ([], c) w) mid)"
    using mid by (rule first_phase_loop)
  then have "first_phase (list_loop (list_loop (list_step ([], c) w) mid) rest)
      \<or> later_phase (list_loop (list_loop (list_step ([], c) w) mid) rest)"
    using phases_loop[of "list_loop (list_step ([], c) w) mid" rest] rest by simp
  then have "length (filter is_main (list_finish (list_loop (list_loop (list_step ([], c) w) mid) rest))) = 1"
    by (rule phases_finish)
  then show ?thesis
    by (simp add: list_lines_def list_loop_append c(1))
qed

lemma list_lines_first:
  assumes pre: "\<forall>l \<in> set pre. \<not> opens_record l" and w: "opens_record w"
  shows "list_lines (pre @ w # rest) \<noteq> []"
    and "GitWorktree.path (hd (list_lines (pre @ w # rest))) = Some (substring w 9)"
    and "isMainWorktree (hd (list_lines (pre @ w # rest))) = Some True"
proof -
  have "filter opens_record pre = []" using pre by (induction pre) simp_all
  then have p: "map GitWorktree.path (list_lines (pre @ w # rest)) =
      Some (substring w 9) # map (\<lambda>l. Some (substring l 9)) (filter opens_record rest)"
    using w by (simp add: list_lines_paths)
  then show ne: "list_lines (pre @ w # rest) \<noteq> []" by auto
  from p ne show "GitWorktree.path (hd (list_lines (pre @ w # rest))) = Some (substring w 9)"
    by (cases "list_lines (pre @ w # rest)") simp_all
  from ne show "isMainWorktree (hd (list_lines (pre @ w # rest))) = Some True"
    unfolding list_lines_def by (rule first_is_main)
qed

lemma other_lines_do_not_open:
  "startsWith l ''HEAD '' \<or> startsWith l ''branch '' \<or> l = ''bare'' \<or> l = ''locked'' \<or> l = ''prunable''
   \<Longrightarrow> \<not> opens_record l"
  by (cases l) (auto simp: opens_record_def startsWith_def)

subsection \<open>Records and the lines that open them\<close>

text \<open>
  Claim C10.  \<^verbatim>\<open>list()\<close> gives one record for each input line that starts with
  \<^verbatim>\<open>worktree \<close> and goes on with a non-empty path, in the order of the input, with
  that path.  Lines ahead of the first such line (\<^verbatim>\<open>HEAD \<close>, \<^verbatim>\<open>branch \<close>,
  \<^verbatim>\<open>bare\<close>, \<^verbatim>\<open>locked\<close>, \<^verbatim>\<open>prunable\<close>, and any other line that opens no record)
  change nothing in the listing, and a \<^verbatim>\<open>worktree \<close> line with an empty path opens no
  record.
\<close>

theorem list_one_record_per_worktree_line:
  "map GitWorktree.path (list_lines ls) = map (\<lambda>l. Some (substring l 9)) (filter opens_record ls)
   \<and> length (list_lines ls) = length (filter opens_record ls)
   \<and> ((\<forall>l \<in> set pre. startsWith l ''HEAD '' \<or> startsWith l ''branch '' \<or> l = ''bare''
          \<or> l = ''locked'' \<or> l = ''prunable'' \<or> \<not> opens_record l)
        \<longrightarrow> list_lines (pre @ ls) = list_lines ls)
   \<and> \<not> opens_record ''worktree ''"
proof -
  have paths: "map GitWorktree.path (list_lines ls) =
      map (\<lambda>l. Some (substring l 9)) (filter opens_record ls)"
    by (rule list_lines_paths)
  have "length (map GitWorktree.path (list_lines ls)) = length (filter opens_record ls)"
    by (simp only: paths length_map)
  then have len: "length (list_lines ls) = length (filter opens_record ls)"
    by simp
  have skip: "list_lines (pre @ ls) = list_lines ls"
    if "\<forall>l \<in> set pre. startsWith l ''HEAD '' \<or> startsWith l ''branch '' \<or> l = ''bare''
          \<or> l = ''locked'' \<or> l = ''prunable'' \<or> \<not> opens_record l"
  proof -
    from that have "\<forall>l \<in> set pre. \<not> opens_record l"
      using other_lines_do_not_open by blast
    then show ?thesis by (rule list_lines_skip)
  qed
  have empty: "\<not> opens_record ''worktree ''"
    by (simp add: opens_record_def substring_def)
  from paths len skip empty show ?thesis by blast
qed

theorem list_one_record_per_worktree_line_witness:
  "startsWith ''HEAD abc'' ''HEAD '' \<and> startsWith ''branch refs/heads/x'' ''branch ''
   \<and> \<not> opens_record ''worktree ''
   \<and> list_lines ([''HEAD abc'', ''branch refs/heads/x'', ''bare'', ''locked'', ''prunable'', ''worktree '']
                  @ [''worktree /a'', ''worktree '', ''worktree /b''])
       = list_lines [''worktree /a'', ''worktree '', ''worktree /b'']
   \<and> map GitWorktree.path (list_lines [''worktree /a'', ''worktree '', ''worktree /b''])
       = [Some ''/a'', Some ''/b'']"
proof -
  have h1: "startsWith ''HEAD abc'' ''HEAD ''" "startsWith ''branch refs/heads/x'' ''branch ''"
    by (simp_all add: startsWith_def)
  have h2: "\<not> opens_record ''worktree ''"
    by (simp add: opens_record_def substring_def)
  have h: "\<forall>l \<in> set [''HEAD abc'', ''branch refs/heads/x'', ''bare'', ''locked'', ''prunable'', ''worktree ''].
      startsWith l ''HEAD '' \<or> startsWith l ''branch '' \<or> l = ''bare''
        \<or> l = ''locked'' \<or> l = ''prunable'' \<or> \<not> opens_record l"
    using h1 h2 by simp
  have o: "filter opens_record [''worktree /a'', ''worktree '', ''worktree /b'']
      = [''worktree /a'', ''worktree /b'']"
    by (simp add: opens_record_def startsWith_def substring_def)
  from list_one_record_per_worktree_line
         [of "[''worktree /a'', ''worktree '', ''worktree /b'']"
             "[''HEAD abc'', ''branch refs/heads/x'', ''bare'', ''locked'', ''prunable'', ''worktree '']"]
       h h1 h2 o
  show ?thesis by (simp add: substring_def)
qed

subsection \<open>The main worktree\<close>

text \<open>
  Claim C2, as the code has it.  In a listing with at least one record, the first
  record is returned with \<^verbatim>\<open>isMainWorktree = true\<close>.  It is the only such entry
  when no \<^verbatim>\<open>bare\<close> line is read once a second record has been opened: for
  an input \<open>pre @ w # mid @ rest\<close> where \<open>w\<close> is the first line that opens a record
  and no line of \<open>mid\<close> opens one, it is enough that \<open>rest\<close> has no \<^verbatim>\<open>bare\<close> line.
  (A \<^verbatim>\<open>bare\<close> line in a later record marks that record as main too.)
\<close>

theorem list_first_record_is_main:
  assumes "\<forall>l \<in> set pre. \<not> opens_record l" and "opens_record w"
    and "\<forall>l \<in> set mid. \<not> opens_record l"
  shows "list_lines (pre @ w # mid @ rest) \<noteq> []
    \<and> GitWorktree.path (hd (list_lines (pre @ w # mid @ rest))) = Some (substring w 9)
    \<and> isMainWorktree (hd (list_lines (pre @ w # mid @ rest))) = Some True
    \<and> (''bare'' \<notin> set rest \<longrightarrow>
         length (filter is_main (list_lines (pre @ w # mid @ rest))) = 1)"
  using list_lines_first[OF assms(1,2), of "mid @ rest"] list_lines_one_main[OF assms]
  by blast

theorem list_first_record_is_main_witness:
  "\<not> opens_record ''junk'' \<and> opens_record ''worktree /repo''
   \<and> \<not> opens_record ''HEAD abc'' \<and> \<not> opens_record ''bare''
   \<and> ''bare'' \<notin> set [''worktree /wt'', ''HEAD def'', ''branch refs/heads/f'']
   \<and> map isMainWorktree
        (list_lines ([''junk''] @ ''worktree /repo'' # [''HEAD abc'', ''bare'']
                       @ [''worktree /wt'', ''HEAD def'', ''branch refs/heads/f'']))
       = [Some True, Some False]
   \<and> length (filter is_main
        (list_lines ([''junk''] @ ''worktree /repo'' # [''HEAD abc'', ''bare'']
                       @ [''worktree /wt'', ''HEAD def'', ''branch refs/heads/f'']))) = 1"
proof -
  have n: "\<not> opens_record ''junk''" "\<not> opens_record ''HEAD abc''" "\<not> opens_record ''bare''"
    by (simp_all add: opens_record_def startsWith_def)
  have h1: "\<forall>l \<in> set [''junk'']. \<not> opens_record l"
    using n by simp
  have h2: "opens_record ''worktree /repo''"
    by (simp add: opens_record_def startsWith_def substring_def)
  have h3: "\<forall>l \<in> set [''HEAD abc'', ''bare'']. \<not> opens_record l"
    using n by simp
  have h4: "''bare'' \<notin> set [''worktree /wt'', ''HEAD def'', ''branch refs/heads/f'']"
    by simp
  have v: "map isMainWorktree
        (list_lines ([''junk''] @ ''worktree /repo'' # [''HEAD abc'', ''bare'']
                       @ [''worktree /wt'', ''HEAD def'', ''branch refs/heads/f'']))
       = [Some True, Some False]"
    by (simp add: list_lines_def list_finish_def list_step_def startsWith_def substring_def
        truthy_str_def empty_worktree_def)
  from list_first_record_is_main[OF h1 h2 h3,
         of "[''worktree /wt'', ''HEAD def'', ''branch refs/heads/f'']"] n h2 h4 v
  show ?thesis by blast
qed

text \<open>
  Claim C2 as stated fails: with a \<^verbatim>\<open>bare\<close> line in the second record, two entries
  are returned with \<^verbatim>\<open>isMainWorktree = true\<close>.
\<close>

theorem list_two_main_counterexample:
  "map isMainWorktree
     (list_lines (split_nl (''worktree /a'' @ [CHR 0x0A] @ ''worktree /b'' @ [CHR 0x0A] @ ''bare'')))
   = [Some True, Some True]"
  by (simp add: list_lines_def list_finish_def list_step_def startsWith_def substring_def
      truthy_str_def empty_worktree_def)

subsection \<open>The branch of a record\<close>

text \<open>
  Claim C7 at the ref \<^verbatim>\<open>refs/x/refs/heads/y\<close>, which does not start with
  \<^verbatim>\<open>refs/heads/\<close>: the record does not keep it as it is, the occurrence of
  \<^verbatim>\<open>refs/heads/\<close> inside it is removed.
\<close>

theorem list_branch_inner_occurrence:
  "WorktreeService_list
     (\<lambda>args. Inr (''worktree /w'' @ [CHR 0x0A] @ ''HEAD abc'' @ [CHR 0x0A]
                     @ ''branch refs/x/refs/heads/y'' @ [CHR 0x0A]))
   = Inr [\<lparr>GitWorktree.path = Some ''/w'', head = Some ''abc'',
            GitWorktree.branch = Some ''refs/x/y'',
            isMainWorktree = Some True, isLocked = Some False, prunable = Some False\<rparr>]"
  by (simp add: WorktreeService_list_def list_lines_def list_finish_def list_step_def
      startsWith_def substring_def truthy_str_def empty_worktree_def)

section \<open>Properties of \<^verbatim>\<open>remove\<close>\<close>

lemma remove_first_fails:
  "raw (remove_args options) s = (Inl err, s1) \<Longrightarrow> WorktreeService_remove raw options s = (Inl err, s1)"
  by (simp add: WorktreeService_remove_def)

lemma remove_no_branch:
  "raw (remove_args options) s = (Inr out1, s1) \<Longrightarrow>
   \<not> (truthy_bool (deleteBranch options) \<and> truthy_str (WorktreeRemoveOptions.branch options)) \<Longrightarrow>
   WorktreeService_remove raw options s = (Inr (), s1)"
  by (auto simp: WorktreeService_remove_def)

lemma remove_branch:
  "raw (remove_args options) s = (Inr out1, s1) \<Longrightarrow>
   truthy_bool (deleteBranch options) \<Longrightarrow> WorktreeRemoveOptions.branch options = Some b \<Longrightarrow> b \<noteq> [] \<Longrightarrow>
   WorktreeService_remove raw options s =
     (case raw (branch_delete_args b) s1 of (Inl err, s2) \<Rightarrow> (Inl err, s2) | (Inr out2, s2) \<Rightarrow> (Inr (), s2))"
  by (simp add: WorktreeService_remove_def truthy_str_def)

lemma recording_apply:
  "raw args s = (r, s') \<Longrightarrow> recording raw args (s, log) = (r, (s', log @ [args]))"
  by (simp add: recording_def)

text \<open>
  Claim C4.  \<^verbatim>\<open>remove(options)\<close> runs \<^verbatim>\<open>worktree remove [--force] path\<close>; if that
  throws, the error is the outcome and nothing else is run.  Once it has
  succeeded, \<^verbatim>\<open>branch -D\<close> is run next exactly when \<^verbatim>\<open>options.deleteBranch\<close> and
  \<^verbatim>\<open>options.branch\<close> are both set (truthy: \<^verbatim>\<open>true\<close>, and a non-empty name).  The
  first argument vector is \<^verbatim>\<open>worktree remove path\<close>, with \<^verbatim>\<open>--force\<close> before the
  path exactly when \<^verbatim>\<open>options.force\<close> is set; the second is \<^verbatim>\<open>branch -D\<close> and the
  branch.  If
  the branch deletion throws, its error is the outcome of \<^verbatim>\<open>remove\<close>, the
  repository is left as the two commands left it, and no third command is run:
  the removal of the worktree stays.
\<close>

theorem remove_not_atomic:
  fixes raw :: "'st git_raw"
  shows
   "remove_args options =
      (if truthy_bool (force options)
       then [''worktree'', ''remove'', ''--force'', WorktreeRemoveOptions.path options]
       else [''worktree'', ''remove'', WorktreeRemoveOptions.path options])
    \<and> (\<forall>b. branch_delete_args b = [''branch'', ''-D'', b])
    \<and> (\<forall>err s1. raw (remove_args options) s = (Inl err, s1) \<longrightarrow>
       WorktreeService_remove (recording raw) options (s, []) = (Inl err, (s1, [remove_args options])))
    \<and> (\<forall>out1 s1. raw (remove_args options) s = (Inr out1, s1) \<longrightarrow>
         snd (snd (WorktreeService_remove (recording raw) options (s, []))) =
           remove_args options #
             (if truthy_bool (deleteBranch options) \<and> truthy_str (WorktreeRemoveOptions.branch options)
              then (case WorktreeRemoveOptions.branch options of None \<Rightarrow> [] | Some b \<Rightarrow> [branch_delete_args b])
              else []))
    \<and> (\<forall>out1 s1 b err s2.
         raw (remove_args options) s = (Inr out1, s1)
         \<and> truthy_bool (deleteBranch options) \<and> WorktreeRemoveOptions.branch options = Some b \<and> b \<noteq> []
         \<and> raw (branch_delete_args b) s1 = (Inl err, s2) \<longrightarrow>
         WorktreeService_remove (recording raw) options (s, []) =
           (Inl err, (s2, [remove_args options, branch_delete_args b])))"
proof (intro conjI allI impI)
  show "remove_args options =
      (if truthy_bool (force options)
       then [''worktree'', ''remove'', ''--force'', WorktreeRemoveOptions.path options]
       else [''worktree'', ''remove'', WorktreeRemoveOptions.path options])"
    by (simp add: remove_args_def)
next
  fix b show "branch_delete_args b = [''branch'', ''-D'', b]"
    by (simp add: branch_delete_args_def)
next
  fix err s1 assume "raw (remove_args options) s = (Inl err, s1)"
  then have "recording raw (remove_args options) (s, []) = (Inl err, (s1, [] @ [remove_args options]))"
    by (rule recording_apply)
  then show "WorktreeService_remove (recording raw) options (s, []) = (Inl err, (s1, [remove_args options]))"
    by (simp add: remove_first_fails)
next
  fix out1 s1 assume a: "raw (remove_args options) s = (Inr out1, s1)"
  then have r1: "recording raw (remove_args options) (s, []) = (Inr out1, (s1, [] @ [remove_args options]))"
    by (rule recording_apply)
  show "snd (snd (WorktreeService_remove (recording raw) options (s, []))) =
           remove_args options #
             (if truthy_bool (deleteBranch options) \<and> truthy_str (WorktreeRemoveOptions.branch options)
              then (case WorktreeRemoveOptions.branch options of None \<Rightarrow> [] | Some b \<Rightarrow> [branch_delete_args b])
              else [])"
  proof (cases "truthy_bool (deleteBranch options) \<and> truthy_str (WorktreeRemoveOptions.branch options)")
    case False
    with remove_no_branch[of "recording raw" options "(s, [])" out1 "(s1, [] @ [remove_args options])"] r1
    show ?thesis by auto
  next
    case True
    then obtain b where b: "WorktreeRemoveOptions.branch options = Some b" "b \<noteq> []"
      by (auto simp: truthy_str_def split: option.splits)
    obtain r2 s2 where r2: "raw (branch_delete_args b) s1 = (r2, s2)"
      by (cases "raw (branch_delete_args b) s1")
    have "recording raw (branch_delete_args b) (s1, [remove_args options]) =
        (r2, (s2, [remove_args options] @ [branch_delete_args b]))"
      using r2 by (rule recording_apply)
    with remove_branch[of "recording raw" options "(s, [])" out1 "(s1, [] @ [remove_args options])" b] r1 True b
    show ?thesis
      by (cases r2) simp_all
  qed
next
  fix out1 s1 b err s2
  assume a: "raw (remove_args options) s = (Inr out1, s1)
         \<and> truthy_bool (deleteBranch options) \<and> WorktreeRemoveOptions.branch options = Some b \<and> b \<noteq> []
         \<and> raw (branch_delete_args b) s1 = (Inl err, s2)"
  then have r1: "recording raw (remove_args options) (s, []) = (Inr out1, (s1, [] @ [remove_args options]))"
    by (intro recording_apply) simp
  have "recording raw (branch_delete_args b) (s1, [remove_args options]) =
        (Inl err, (s2, [remove_args options] @ [branch_delete_args b]))"
    using a by (intro recording_apply) simp
  with remove_branch[of "recording raw" options "(s, [])" out1 "(s1, [] @ [remove_args options])" b] r1 a
  show "WorktreeService_remove (recording raw) options (s, []) =
           (Inl err, (s2, [remove_args options, branch_delete_args b]))"
    by simp
qed


theorem remove_not_atomic_witness:
  "remove_args \<lparr>WorktreeRemoveOptions.path = ''/wt'', force = Some True, deleteBranch = Some True,
                 WorktreeRemoveOptions.branch = Some ''feature''\<rparr>
     = [''worktree'', ''remove'', ''--force'', ''/wt'']
   \<and> remove_args \<lparr>WorktreeRemoveOptions.path = ''/wt'', force = None, deleteBranch = Some True,
                 WorktreeRemoveOptions.branch = Some ''feature''\<rparr>
     = [''worktree'', ''remove'', ''/wt'']
   \<and> toy_git [''worktree'', ''remove'', ''--force'', ''/wt'']
       \<lparr>toy_worktrees = [''/repo'', ''/wt''], toy_branches = [''main'']\<rparr>
     = (Inr [], \<lparr>toy_worktrees = [''/repo''], toy_branches = [''main'']\<rparr>)
   \<and> toy_git [''branch'', ''-D'', ''feature''] \<lparr>toy_worktrees = [''/repo''], toy_branches = [''main'']\<rparr>
     = (Inl ''error: branch not found'', \<lparr>toy_worktrees = [''/repo''], toy_branches = [''main'']\<rparr>)
   \<and> WorktreeService_remove (recording toy_git)
        \<lparr>WorktreeRemoveOptions.path = ''/wt'', force = Some True, deleteBranch = Some True,
         WorktreeRemoveOptions.branch = Some ''feature''\<rparr>
        (\<lparr>toy_worktrees = [''/repo'', ''/wt''], toy_branches = [''main'']\<rparr>, [])
     = (Inl ''error: branch not found'',
        (\<lparr>toy_worktrees = [''/repo''], toy_branches = [''main'']\<rparr>,
         [[''worktree'', ''remove'', ''--force'', ''/wt''], [''branch'', ''-D'', ''feature'']]))"
proof -
  let ?o = "\<lparr>WorktreeRemoveOptions.path = ''/wt'', force = Some True, deleteBranch = Some True,
             WorktreeRemoveOptions.branch = Some ''feature''\<rparr>"
  let ?o' = "\<lparr>WorktreeRemoveOptions.path = ''/wt'', force = None, deleteBranch = Some True,
             WorktreeRemoveOptions.branch = Some ''feature''\<rparr>"
  let ?s = "\<lparr>toy_worktrees = [''/repo'', ''/wt''], toy_branches = [''main'']\<rparr>"
  let ?s1 = "\<lparr>toy_worktrees = [''/repo''], toy_branches = [''main'']\<rparr>"
  have f: "truthy_bool (force ?o)" "\<not> truthy_bool (force ?o')"
    by (simp_all add: truthy_bool_def)
  from remove_not_atomic[of ?o toy_git ?s] f(1)
  have a: "remove_args ?o = [''worktree'', ''remove'', ''--force'', ''/wt'']"
    by simp
  from remove_not_atomic[of ?o' toy_git ?s] f(2)
  have a': "remove_args ?o' = [''worktree'', ''remove'', ''/wt'']"
    by simp
  from remove_not_atomic[of ?o toy_git ?s]
  have b: "branch_delete_args ''feature'' = [''branch'', ''-D'', ''feature'']"
    by blast
  have h1: "toy_git (remove_args ?o) ?s = (Inr [], ?s1)"
    by (simp add: a toy_git_def toy_remove_worktree_def)
  have h2: "toy_git (branch_delete_args ''feature'') ?s1 = (Inl ''error: branch not found'', ?s1)"
    by (simp add: b toy_git_def)
  have h3: "truthy_bool (deleteBranch ?o)" "WorktreeRemoveOptions.branch ?o = Some ''feature''"
    by (simp_all add: truthy_bool_def)
  from remove_not_atomic[of ?o toy_git ?s] h1 h2 h3
  have "WorktreeService_remove (recording toy_git) ?o (?s, []) =
      (Inl ''error: branch not found'', (?s1, [remove_args ?o, branch_delete_args ''feature'']))"
    by blast
  with h1 h2 a a' b show ?thesis by simp
qed

section \<open>Properties of the merge handlers\<close>

lemma handleMerge_falsy:
  "\<not> truthy_str (selectedRepo a) \<Longrightarrow> handleMerge mutateAsync options a = (Inr no_repository_result, a)"
  by (simp add: handleMerge_def)

text \<open>
  Claim C5.  With no repository selected, \<^verbatim>\<open>handleMerge\<close> answers at once with
  \<^verbatim>\<open>success = false\<close>, \<^verbatim>\<open>merged = false\<close> and the error \<^verbatim>\<open>No repository selected\<close>;
  whatever the merge mutation would do, it is not called: the state of the
  application, with the backend and the repository behind it, is as before.
\<close>

theorem handleMerge_no_repository:
  "(\<not> truthy_str (selectedRepo a) \<longrightarrow>
      handleMerge mutateAsync options a = (Inr no_repository_result, a))
   \<and> success no_repository_result = False
   \<and> merged no_repository_result = False
   \<and> error no_repository_result = Some ''No repository selected''"
  by (simp add: handleMerge_falsy no_repository_result_def)

theorem handleMerge_no_repository_witness:
  "\<not> truthy_str (selectedRepo
        \<lparr>selectedRepo = None, mergeDialogOpen = True, mergeWorktree = None, mergeConflicts = None,
         pendingMergeOptions = None, effects = [], backend = (0::nat)\<rparr>)
   \<and> handleMerge (\<lambda>workdir options b. (Inl ''called'', Suc b))
        \<lparr>WorktreeMergeOptions.worktreePath = ''/wt'', targetBranch = ''main'', strategy = Merge,
         noFf = None, message = None,
         WorktreeMergeOptions.deleteWorktreeAfterMerge = Some True,
         WorktreeMergeOptions.deleteBranchAfterMerge = Some True, autoStash = None\<rparr>
        \<lparr>selectedRepo = None, mergeDialogOpen = True, mergeWorktree = None, mergeConflicts = None,
         pendingMergeOptions = None, effects = [], backend = (0::nat)\<rparr>
     = (Inr \<lparr>success = False, merged = False, conflicts = None, commitHash = None,
             error = Some ''No repository selected'', warnings = None,
             mainStashStatus = None, worktreeStashStatus = None,
             mainWorktreePath = None, WorktreeMergeResult.worktreePath = None\<rparr>,
        \<lparr>selectedRepo = None, mergeDialogOpen = True, mergeWorktree = None, mergeConflicts = None,
         pendingMergeOptions = None, effects = [], backend = (0::nat)\<rparr>)"
proof -
  let ?a = "\<lparr>selectedRepo = None, mergeDialogOpen = True, mergeWorktree = None, mergeConflicts = None,
         pendingMergeOptions = None, effects = [], backend = (0::nat)\<rparr>"
  have h: "\<not> truthy_str (selectedRepo ?a)"
    by (simp add: truthy_str_def)
  from handleMerge_no_repository[of ?a "\<lambda>workdir options b. (Inl ''called'', Suc b)"] h
  show ?thesis by (simp add: no_repository_result_def)
qed

lemma complete_no_repo:
  "\<not> truthy_str (selectedRepo a) \<Longrightarrow> handleCompleteMerge t mutateAsync msg a = (Inr (), a)"
  by (simp add: handleCompleteMerge_def)

lemma complete_rejected:
  "selectedRepo a = Some workdir \<Longrightarrow> workdir \<noteq> [] \<Longrightarrow>
   mutateAsync workdir msg (pendingMergeOptions a) (backend a) = (Inl err, b) \<Longrightarrow>
   handleCompleteMerge t mutateAsync msg a = (Inl err, a\<lparr>backend := b\<rparr>)"
  by (simp add: handleCompleteMerge_def truthy_str_def)

lemma complete_unsuccessful:
  "selectedRepo a = Some workdir \<Longrightarrow> workdir \<noteq> [] \<Longrightarrow>
   mutateAsync workdir msg (pendingMergeOptions a) (backend a) = (Inr result, b) \<Longrightarrow>
   \<not> success result \<Longrightarrow>
   handleCompleteMerge t mutateAsync msg a = (Inr (), a\<lparr>backend := b\<rparr>)"
  by (simp add: handleCompleteMerge_def truthy_str_def)

lemma complete_successful:
  "selectedRepo a = Some workdir \<Longrightarrow> workdir \<noteq> [] \<Longrightarrow>
   mutateAsync workdir msg (pendingMergeOptions a) (backend a) = (Inr result, b) \<Longrightarrow>
   success result \<Longrightarrow>
   \<exists>a'. handleCompleteMerge t mutateAsync msg a = (Inr (), a') \<and> backend a' = b
      \<and> mergeConflicts a' = None \<and> pendingMergeOptions a' = None
      \<and> selectedRepo a' = selectedRepo a \<and> mergeWorktree a' = mergeWorktree a"
  by (simp add: handleCompleteMerge_def truthy_str_def Let_def split: option.splits)

text \<open>
  Claim C9.  When \<^verbatim>\<open>continueMerge\<close> answers with \<^verbatim>\<open>success = false\<close>,
  \<^verbatim>\<open>handleCompleteMerge\<close> leaves the state of the user interface as it was: the
  stored conflicts, the pending cleanup options and everything else; only the
  backend has moved.  The stored conflicts or the pending cleanup options change
  only when the answer has \<^verbatim>\<open>success = true\<close>.
\<close>

theorem continue_failure_keeps_merge_state:
  "(\<forall>workdir result b.
      selectedRepo a = Some workdir \<and> workdir \<noteq> []
      \<and> mutateAsync workdir msg (pendingMergeOptions a) (backend a) = (Inr result, b)
      \<and> \<not> success result
      \<longrightarrow> handleCompleteMerge t mutateAsync msg a = (Inr (), a\<lparr>backend := b\<rparr>))
   \<and> (mergeConflicts (snd (handleCompleteMerge t mutateAsync msg a)) \<noteq> mergeConflicts a
        \<or> pendingMergeOptions (snd (handleCompleteMerge t mutateAsync msg a)) \<noteq> pendingMergeOptions a
      \<longrightarrow> (\<exists>workdir result b.
             selectedRepo a = Some workdir
             \<and> mutateAsync workdir msg (pendingMergeOptions a) (backend a) = (Inr result, b)
             \<and> success result))"
proof (intro conjI allI impI)
  fix workdir result b
  assume "selectedRepo a = Some workdir \<and> workdir \<noteq> []
      \<and> mutateAsync workdir msg (pendingMergeOptions a) (backend a) = (Inr result, b)
      \<and> \<not> success result"
  then show "handleCompleteMerge t mutateAsync msg a = (Inr (), a\<lparr>backend := b\<rparr>)"
    using complete_unsuccessful[of a workdir mutateAsync msg result b t] by blast
next
  assume ch: "mergeConflicts (snd (handleCompleteMerge t mutateAsync msg a)) \<noteq> mergeConflicts a
        \<or> pendingMergeOptions (snd (handleCompleteMerge t mutateAsync msg a)) \<noteq> pendingMergeOptions a"
  show "\<exists>workdir result b.
             selectedRepo a = Some workdir
             \<and> mutateAsync workdir msg (pendingMergeOptions a) (backend a) = (Inr result, b)
             \<and> success result"
  proof (cases "truthy_str (selectedRepo a)")
    case False
    with ch complete_no_repo[of a t mutateAsync msg] show ?thesis by simp
  next
    case True
    then obtain workdir where w: "selectedRepo a = Some workdir" "workdir \<noteq> []"
      by (auto simp: truthy_str_def split: option.splits)
    obtain r b where rb: "mutateAsync workdir msg (pendingMergeOptions a) (backend a) = (r, b)"
      by (cases "mutateAsync workdir msg (pendingMergeOptions a) (backend a)")
    show ?thesis
    proof (cases r)
      case (Inl err)
      with ch complete_rejected[OF w, of mutateAsync msg err b t] rb show ?thesis by simp
    next
      case (Inr result)
      show ?thesis
      proof (cases "success result")
        case True
        with w rb Inr show ?thesis by blast
      next
        case False
        with ch complete_unsuccessful[OF w, of mutateAsync msg result b t] rb Inr show ?thesis by simp
      qed
    qed
  qed
qed

lemma conflicts_pending:
  "pendingMergeOptions (handleMergeConflicts t result options a)
     = Some (cleanup_snapshot options (mergeWorktree a))"
  by (simp add: handleMergeConflicts_def Let_def)

lemma conflicts_frame:
  "selectedRepo (handleMergeConflicts t result options a) = selectedRepo a"
  "backend (handleMergeConflicts t result options a) = backend a"
  "mergeWorktree (handleMergeConflicts t result options a) = mergeWorktree a"
  "mergeConflicts (handleMergeConflicts t result options a) = Some result"
  "mergeDialogOpen (handleMergeConflicts t result options a) = False"
  by (simp_all add: handleMergeConflicts_def Let_def)

lemma complete_call_logged:
  assumes "selectedRepo a = Some workdir" "workdir \<noteq> []" "backend a = (b, log)"
  shows "snd (backend (snd (handleCompleteMerge t (recording_continue mutateAsync) msg a)))
           = log @ [ContinueMerge workdir msg (pendingMergeOptions a)]"
proof -
  obtain r b' where m: "mutateAsync workdir msg (pendingMergeOptions a) b = (r, b')"
    by (cases "mutateAsync workdir msg (pendingMergeOptions a) b")
  then have rc: "recording_continue mutateAsync workdir msg (pendingMergeOptions a) (backend a)
      = (r, (b', log @ [ContinueMerge workdir msg (pendingMergeOptions a)]))"
    by (simp add: recording_continue_def assms(3))
  show ?thesis
  proof (cases r)
    case (Inl err)
    with complete_rejected[OF assms(1,2), of "recording_continue mutateAsync" msg err _ t] rc
    show ?thesis by simp
  next
    case (Inr result)
    show ?thesis
    proof (cases "success result")
      case True
      with complete_successful[OF assms(1,2), of "recording_continue mutateAsync" msg result _ t] rc Inr
      show ?thesis by auto
    next
      case False
      with complete_unsuccessful[OF assms(1,2), of "recording_continue mutateAsync" msg result _ t] rc Inr
      show ?thesis by simp
    qed
  qed
qed


text \<open>
  Claim C3.  \<^verbatim>\<open>handleMergeConflicts\<close> stores the snapshot: \<^verbatim>\<open>worktreePath\<close> and
  the two deletion flags of the merge request, and as \<^verbatim>\<open>sourceBranch\<close> the branch
  of the worktree being merged at that moment (\<^verbatim>\<open>mergeWorktree?.branch || ''\<close>).
  The next \<^verbatim>\<open>handleCompleteMerge\<close> calls \<^verbatim>\<open>continueMerge\<close> once, with a
  \<^verbatim>\<open>cleanupOptions\<close> argument equal to that snapshot, also when
  \<^verbatim>\<open>mergeWorktree\<close> and the dialog flag have changed in between; after a
  \<^verbatim>\<open>continueMerge\<close> that answered \<^verbatim>\<open>success = false\<close>, the next call passes the
  same snapshot again.
\<close>

theorem continue_receives_snapshot:
  assumes "selectedRepo a = Some workdir" and "workdir \<noteq> []" and "backend a = (b, log)"
  shows
    "pendingMergeOptions (handleMergeConflicts t result options a)
       = Some (cleanup_snapshot options (mergeWorktree a))
     \<and> cleanup_snapshot options (mergeWorktree a)
       = \<lparr>WorktreeMergeCleanupOptions.worktreePath = Some (WorktreeMergeOptions.worktreePath options),
          sourceBranch = Some (merge_source_branch (mergeWorktree a)),
          WorktreeMergeCleanupOptions.deleteWorktreeAfterMerge =
            WorktreeMergeOptions.deleteWorktreeAfterMerge options,
          WorktreeMergeCleanupOptions.deleteBranchAfterMerge =
            WorktreeMergeOptions.deleteBranchAfterMerge options\<rparr>
     \<and> snd (backend (snd (handleCompleteMerge t (recording_continue mutateAsync) msg
            ((handleMergeConflicts t result options a)\<lparr>mergeWorktree := w', mergeDialogOpen := d'\<rparr>))))
       = log @ [ContinueMerge workdir msg (Some (cleanup_snapshot options (mergeWorktree a)))]
     \<and> (\<forall>r1 b1.
          mutateAsync workdir msg1 (Some (cleanup_snapshot options (mergeWorktree a))) b = (Inr r1, b1)
          \<and> \<not> success r1 \<longrightarrow>
          snd (backend (snd (handleCompleteMerge t (recording_continue mutateAsync) msg
            (snd (handleCompleteMerge t (recording_continue mutateAsync) msg1
               (handleMergeConflicts t result options a))))))
          = log @ [ContinueMerge workdir msg1 (Some (cleanup_snapshot options (mergeWorktree a))),
                   ContinueMerge workdir msg (Some (cleanup_snapshot options (mergeWorktree a)))])"
proof (intro conjI allI impI)
  let ?snap = "cleanup_snapshot options (mergeWorktree a)"
  let ?a2 = "handleMergeConflicts t result options a"
  show p: "pendingMergeOptions ?a2 = Some ?snap"
    by (rule conflicts_pending)
  show "?snap
       = \<lparr>WorktreeMergeCleanupOptions.worktreePath = Some (WorktreeMergeOptions.worktreePath options),
          sourceBranch = Some (merge_source_branch (mergeWorktree a)),
          WorktreeMergeCleanupOptions.deleteWorktreeAfterMerge =
            WorktreeMergeOptions.deleteWorktreeAfterMerge options,
          WorktreeMergeCleanupOptions.deleteBranchAfterMerge =
            WorktreeMergeOptions.deleteBranchAfterMerge options\<rparr>"
    by (simp add: cleanup_snapshot_def)
  have f: "selectedRepo ?a2 = Some workdir" "backend ?a2 = (b, log)"
    using assms by (simp_all add: conflicts_frame)
  let ?a3 = "?a2\<lparr>mergeWorktree := w', mergeDialogOpen := d'\<rparr>"
  have "selectedRepo ?a3 = Some workdir" "backend ?a3 = (b, log)" "pendingMergeOptions ?a3 = Some ?snap"
    using f p by simp_all
  from complete_call_logged[OF this(1) assms(2) this(2), of t mutateAsync msg] this(3)
  show "snd (backend (snd (handleCompleteMerge t (recording_continue mutateAsync) msg ?a3)))
       = log @ [ContinueMerge workdir msg (Some ?snap)]"
    by simp
next
  let ?snap = "cleanup_snapshot options (mergeWorktree a)"
  let ?a2 = "handleMergeConflicts t result options a"
  fix r1 b1
  assume m: "mutateAsync workdir msg1 (Some ?snap) b = (Inr r1, b1) \<and> \<not> success r1"
  have p: "pendingMergeOptions ?a2 = Some ?snap"
    by (rule conflicts_pending)
  have f: "selectedRepo ?a2 = Some workdir" "backend ?a2 = (b, log)"
    using assms by (simp_all add: conflicts_frame)
  let ?log1 = "log @ [ContinueMerge workdir msg1 (Some ?snap)]"
  have "recording_continue mutateAsync workdir msg1 (pendingMergeOptions ?a2) (backend ?a2)
      = (Inr r1, (b1, ?log1))"
    using m by (simp add: recording_continue_def f p)
  from complete_unsuccessful[of ?a2 workdir "recording_continue mutateAsync" msg1 r1 "(b1, ?log1)" t]
    f(1) assms(2) this m
  have first: "handleCompleteMerge t (recording_continue mutateAsync) msg1 ?a2
      = (Inr (), ?a2\<lparr>backend := (b1, ?log1)\<rparr>)"
    by simp
  let ?a3 = "?a2\<lparr>backend := (b1, ?log1)\<rparr>"
  have "selectedRepo ?a3 = Some workdir" "backend ?a3 = (b1, ?log1)" "pendingMergeOptions ?a3 = Some ?snap"
    using f p by simp_all
  from complete_call_logged[OF this(1) assms(2) this(2), of t mutateAsync msg] this(3)
  show "snd (backend (snd (handleCompleteMerge t (recording_continue mutateAsync) msg
            (snd (handleCompleteMerge t (recording_continue mutateAsync) msg1 ?a2)))))
          = log @ [ContinueMerge workdir msg1 (Some ?snap), ContinueMerge workdir msg (Some ?snap)]"
    by (simp add: first)
qed

lemma merge_spec_conflicts:
  "mergeWorktree_spec report workdir options r = (Inr result, r') \<Longrightarrow>
   conflicts result = Some cs \<Longrightarrow> r' = r \<and> report = ConflictPending cs"
  by (auto simp: mergeWorktree_spec_def engine_result_def split: option.splits if_splits git_report.splits)

lemma handleMerge_selected:
  "selectedRepo a = Some workdir \<Longrightarrow> workdir \<noteq> [] \<Longrightarrow>
   handleMerge mutateAsync options a =
     (fst (mutateAsync workdir options (backend a)), a\<lparr>backend := snd (mutateAsync workdir options (backend a))\<rparr>)"
  by (simp add: handleMerge_def truthy_str_def split: prod.splits)

lemma continue_spec_not_completed:
  "\<forall>h. report \<noteq> Completed h \<Longrightarrow>
   \<exists>result. continueMerge_spec report workdir msg c r = (Inr result, r)"
  by (cases report) (simp_all add: continueMerge_spec_def)

lemma continue_spec_completed:
  "continueMerge_spec (Completed h) workdir msg (Some c) r
     = (Inr (engine_result True True None (Some h) None), cleanup_spec c r)"
  by (simp add: continueMerge_spec_def)

lemma complete_backend:
  assumes "selectedRepo a = Some workdir" "workdir \<noteq> []"
    and "mutateAsync workdir msg (pendingMergeOptions a) (backend a) = (r, b)"
  shows "backend (snd (handleCompleteMerge t mutateAsync msg a)) = b"
proof (cases r)
  case (Inl err)
  with complete_rejected[OF assms(1,2), of mutateAsync msg err b t] assms(3) show ?thesis by simp
next
  case (Inr result)
  show ?thesis
  proof (cases "success result")
    case True
    with complete_successful[OF assms(1,2), of mutateAsync msg result b t] assms(3) Inr
    show ?thesis by auto
  next
    case False
    with complete_unsuccessful[OF assms(1,2), of mutateAsync msg result b t] assms(3) Inr
    show ?thesis by simp
  qed
qed

text \<open>
  Claim C1.  A merge attempt whose result reports conflicts leaves the repository
  as it was: the source worktree and its branch are there, whatever deletions
  were requested.  \<^verbatim>\<open>handleMergeConflicts\<close> does not touch the backend, it stores
  the snapshot of the cleanup options.  A later \<^verbatim>\<open>continueMerge\<close> that does not
  complete the merge leaves the repository as it was again; one that completes
  it runs the cleanup on the snapshot.
\<close>

theorem conflicted_merge_defers_cleanup:
  assumes "selectedRepo a = Some workdir" and "workdir \<noteq> []"
    and "handleMerge (mergeWorktree_spec report) options a = (Inr result, a1)"
    and "conflicts result = Some cs"
  shows
    "backend a1 = backend a
     \<and> backend (handleMergeConflicts t result options a1) = backend a
     \<and> pendingMergeOptions (handleMergeConflicts t result options a1)
         = Some (cleanup_snapshot options (mergeWorktree a))
     \<and> (\<forall>report' msg. (\<forall>h. report' \<noteq> Completed h) \<longrightarrow>
           backend (snd (handleCompleteMerge t (continueMerge_spec report') msg
                      (handleMergeConflicts t result options a1))) = backend a)
     \<and> (\<forall>h msg.
           backend (snd (handleCompleteMerge t (continueMerge_spec (Completed h)) msg
                      (handleMergeConflicts t result options a1)))
           = cleanup_spec (cleanup_snapshot options (mergeWorktree a)) (backend a))"
proof -
  let ?m = "mergeWorktree_spec report workdir options (backend a)"
  from assms(3) handleMerge_selected[OF assms(1,2), of "mergeWorktree_spec report" options]
  have m: "fst ?m = Inr result" and a1: "a1 = a\<lparr>backend := snd ?m\<rparr>"
    by simp_all
  from m have "?m = (Inr result, snd ?m)" by (cases ?m) simp
  from merge_spec_conflicts[OF this assms(4)] have "snd ?m = backend a" by blast
  with a1 have same: "a1 = a" by simp
  let ?a2 = "handleMergeConflicts t result options a"
  have f: "selectedRepo ?a2 = Some workdir" "backend ?a2 = backend a"
    "pendingMergeOptions ?a2 = Some (cleanup_snapshot options (mergeWorktree a))"
    using assms(1) by (simp_all add: conflicts_frame conflicts_pending)
  have c1: "backend (snd (handleCompleteMerge t (continueMerge_spec report') msg ?a2)) = backend a"
    if "\<forall>h. report' \<noteq> Completed h" for report' msg
  proof -
    from continue_spec_not_completed[OF that, of workdir msg "pendingMergeOptions ?a2" "backend ?a2"]
    obtain r' where "continueMerge_spec report' workdir msg (pendingMergeOptions ?a2) (backend ?a2)
        = (Inr r', backend ?a2)" by blast
    from complete_backend[where mutateAsync = "continueMerge_spec report'" and t = t, OF f(1) assms(2) this] f(2)
    show ?thesis by simp
  qed
  have c2: "backend (snd (handleCompleteMerge t (continueMerge_spec (Completed h)) msg ?a2))
      = cleanup_spec (cleanup_snapshot options (mergeWorktree a)) (backend a)" for h msg
  proof -
    have "continueMerge_spec (Completed h) workdir msg (pendingMergeOptions ?a2) (backend ?a2)
        = (Inr (engine_result True True None (Some h) None),
           cleanup_spec (cleanup_snapshot options (mergeWorktree a)) (backend a))"
      by (simp add: f continue_spec_completed)
    from complete_backend[where mutateAsync = "continueMerge_spec (Completed h)" and t = t, OF f(1) assms(2) this]
    show ?thesis .
  qed
  from same f c1 c2 show ?thesis by simp
qed


theorem continue_failure_keeps_merge_state_witness:
  "selectedRepo ((demo_app (0::nat))\<lparr>mergeConflicts := Some demo_result, pendingMergeOptions := Some demo_snapshot\<rparr>)
     = Some ''/repo''
   \<and> demo_failing_continue ''/repo'' ''done'' (Some demo_snapshot) 0 = (Inr no_repository_result, 1)
   \<and> \<not> success no_repository_result
   \<and> handleCompleteMerge (\<lambda>s. s) demo_failing_continue ''done''
        ((demo_app 0)\<lparr>mergeConflicts := Some demo_result, pendingMergeOptions := Some demo_snapshot\<rparr>)
     = (Inr (), (demo_app 1)\<lparr>mergeConflicts := Some demo_result, pendingMergeOptions := Some demo_snapshot\<rparr>)"
proof -
  let ?a = "(demo_app (0::nat))\<lparr>mergeConflicts := Some demo_result, pendingMergeOptions := Some demo_snapshot\<rparr>"
  have h1: "selectedRepo ?a = Some ''/repo''" "''/repo'' \<noteq> []"
    by (simp_all add: demo_app_def)
  have h2: "demo_failing_continue ''/repo'' ''done'' (pendingMergeOptions ?a) (backend ?a)
      = (Inr no_repository_result, 1)"
    by (simp add: demo_failing_continue_def demo_app_def)
  have h3: "\<not> success no_repository_result"
    by (simp add: no_repository_result_def)
  from continue_failure_keeps_merge_state[of ?a demo_failing_continue "''done''" "\<lambda>s. s"] h1 h2 h3
  have "handleCompleteMerge (\<lambda>s. s) demo_failing_continue ''done'' ?a = (Inr (), ?a\<lparr>backend := 1\<rparr>)"
    by blast
  with h1 h2 h3 show ?thesis by (simp add: demo_app_def)
qed

theorem continue_receives_snapshot_witness:
  "selectedRepo (demo_app (0::nat, []::continue_call list)) = Some ''/repo''
   \<and> snd (backend (snd (handleCompleteMerge (\<lambda>s. s) (recording_continue demo_failing_continue) ''done''
          ((handleMergeConflicts (\<lambda>s. s) demo_result demo_options (demo_app (0, [])))
             \<lparr>mergeWorktree := None, mergeDialogOpen := True\<rparr>))))
     = [ContinueMerge ''/repo'' ''done''
          (Some \<lparr>WorktreeMergeCleanupOptions.worktreePath = Some ''/wt'', sourceBranch = Some ''feature'',
                 WorktreeMergeCleanupOptions.deleteWorktreeAfterMerge = Some True,
                 WorktreeMergeCleanupOptions.deleteBranchAfterMerge = Some True\<rparr>)]"
proof -
  let ?a = "demo_app (0::nat, []::continue_call list)"
  have h: "selectedRepo ?a = Some ''/repo''" "''/repo'' \<noteq> []" "backend ?a = (0, [])"
    by (simp_all add: demo_app_def)
  have e: "cleanup_snapshot demo_options (mergeWorktree ?a)
      = \<lparr>WorktreeMergeCleanupOptions.worktreePath = Some ''/wt'', sourceBranch = Some ''feature'',
         WorktreeMergeCleanupOptions.deleteWorktreeAfterMerge = Some True,
         WorktreeMergeCleanupOptions.deleteBranchAfterMerge = Some True\<rparr>"
    by (simp add: cleanup_snapshot_def demo_options_def demo_app_def demo_worktree_def
        merge_source_branch_def)
  from continue_receives_snapshot[where t = "\<lambda>s. s" and result = demo_result
         and options = demo_options and mutateAsync = demo_failing_continue and msg = "''done''"
         and w' = None and d' = True, OF h, THEN conjunct2, THEN conjunct2, THEN conjunct1]
  have "snd (backend (snd (handleCompleteMerge (\<lambda>s. s) (recording_continue demo_failing_continue) ''done''
          ((handleMergeConflicts (\<lambda>s. s) demo_result demo_options ?a)
             \<lparr>mergeWorktree := None, mergeDialogOpen := True\<rparr>))))
     = [] @ [ContinueMerge ''/repo'' ''done'' (Some (cleanup_snapshot demo_options (mergeWorktree ?a)))]" .
  with h(1) show ?thesis by (simp only: e append_Nil simp_thms)
qed

theorem conflicted_merge_defers_cleanup_witness:
  "selectedRepo (demo_app demo_repo) = Some ''/repo''
   \<and> handleMerge (mergeWorktree_spec (ConflictPending [demo_conflict])) demo_options (demo_app demo_repo)
     = (Inr demo_result, demo_app demo_repo)
   \<and> conflicts demo_result = Some [demo_conflict]
   \<and> backend (handleMergeConflicts (\<lambda>s. s) demo_result demo_options (demo_app demo_repo)) = demo_repo
   \<and> backend (snd (handleCompleteMerge (\<lambda>s. s) (continueMerge_spec (ConflictPending [demo_conflict])) ''done''
        (handleMergeConflicts (\<lambda>s. s) demo_result demo_options (demo_app demo_repo)))) = demo_repo
   \<and> backend (snd (handleCompleteMerge (\<lambda>s. s) (continueMerge_spec (Completed ''c0ffee'')) ''done''
        (handleMergeConflicts (\<lambda>s. s) demo_result demo_options (demo_app demo_repo))))
     = \<lparr>repo_main = ''/repo'', repo_worktrees = [(''/repo'', Some ''main'')], repo_branches = [''main'']\<rparr>"
proof -
  let ?a = "demo_app demo_repo"
  have h1: "selectedRepo ?a = Some ''/repo''" "''/repo'' \<noteq> []"
    by (simp_all add: demo_app_def)
  have h2: "handleMerge (mergeWorktree_spec (ConflictPending [demo_conflict])) demo_options ?a
      = (Inr demo_result, ?a)"
    by (simp add: handleMerge_def truthy_str_def demo_app_def mergeWorktree_spec_def demo_repo_def
        demo_options_def engine_result_def demo_result_def)
  have h3: "conflicts demo_result = Some [demo_conflict]"
    by (simp add: demo_result_def)
  have b: "backend ?a = demo_repo"
    by (simp add: demo_app_def)
  have e: "cleanup_spec (cleanup_snapshot demo_options (mergeWorktree ?a)) demo_repo
      = \<lparr>repo_main = ''/repo'', repo_worktrees = [(''/repo'', Some ''main'')], repo_branches = [''main'']\<rparr>"
    by (simp add: cleanup_spec_def cleanup_snapshot_def demo_options_def demo_app_def demo_worktree_def
        merge_source_branch_def demo_repo_def truthy_bool_def)
  have n: "\<forall>h. ConflictPending [demo_conflict] \<noteq> Completed h"
    by simp
  from conflicted_merge_defers_cleanup[where t = "\<lambda>s. s", OF h1 h2 h3] n
  have "backend (handleMergeConflicts (\<lambda>s. s) demo_result demo_options ?a) = backend ?a"
    and "backend (snd (handleCompleteMerge (\<lambda>s. s) (continueMerge_spec (ConflictPending [demo_conflict])) ''done''
        (handleMergeConflicts (\<lambda>s. s) demo_result demo_options ?a))) = backend ?a"
    and "backend (snd (handleCompleteMerge (\<lambda>s. s) (continueMerge_spec (Completed ''c0ffee'')) ''done''
        (handleMergeConflicts (\<lambda>s. s) demo_result demo_options ?a)))
      = cleanup_spec (cleanup_snapshot demo_options (mergeWorktree ?a)) (backend ?a)"
    by blast+
  with h1 h2 h3 show ?thesis by (simp only: b e simp_thms)
qed

section \<open>Properties of the blob lookup\<close>

lemma resolve_settled: "p \<noteq> Pending \<Longrightarrow> resolve v p = p"
  by (cases p) (simp_all add: resolve_def)

lemma resolve_pending: "resolve v Pending = Resolved v"
  by (simp add: resolve_def)

lemma on_event_settled: "p \<noteq> Pending \<Longrightarrow> snd (on_event (chunks, p) ev) = p"
  by (cases ev) (simp_all add: resolve_settled)

lemma events_settled: "p \<noteq> Pending \<Longrightarrow> snd (foldl on_event (chunks, p) evs) = p"
proof (induction evs arbitrary: chunks)
  case Nil
  then show ?case by simp
next
  case (Cons ev evs)
  obtain chunks' where "on_event (chunks, p) ev = (chunks', p)"
    using on_event_settled[OF Cons.prems, of chunks ev] by (cases "on_event (chunks, p) ev") simp
  with Cons show ?case by simp
qed

lemma events_data: "foldl on_event (chunks, p) (map StdoutData cs) = (chunks @ cs, p)"
  by (induction cs arbitrary: chunks) simp_all

lemma on_terminal:
  "terminal ev \<Longrightarrow>
   \<exists>chunks'. on_event (chunks, Pending) ev = (chunks', Resolved (if lookup_failed chunks ev then [] else concat chunks))"
  by (cases ev) (auto simp: terminal_def lookup_failed_def resolve_pending)

lemma events_first_terminal:
  assumes "terminal ev"
  shows "snd (foldl on_event ([], Pending) (map StdoutData cs @ ev # post))
           = Resolved (if lookup_failed cs ev then [] else concat cs)"
proof -
  obtain chunks' where "on_event (cs, Pending) ev
      = (chunks', Resolved (if lookup_failed cs ev then [] else concat cs))"
    using on_terminal[OF assms] by blast
  then show ?thesis
    by (simp add: events_data events_settled)
qed



lemma lookup_failed_terminal: "lookup_failed chunks ev \<Longrightarrow> terminal ev"
  by (cases ev) (simp_all add: lookup_failed_def terminal_def)

lemma gitShowBuffer_first_terminal:
  assumes "spawnGit workdir [''show'', ref] = map StdoutData cs @ ev # post" and "terminal ev"
  shows "gitShowBuffer spawnGit workdir ref = Resolved (if lookup_failed cs ev then [] else concat cs)"
proof -
  have "gitShowBuffer spawnGit workdir ref
      = snd (foldl on_event ([], Pending) (map StdoutData cs @ ev # post))"
    by (simp only: gitShowBuffer_def assms(1))
  also have "\<dots> = Resolved (if lookup_failed cs ev then [] else concat cs)"
    using assms(2) by (rule events_first_terminal)
  finally show ?thesis .
qed

lemma gitShowBuffer_failed:
  assumes "spawnGit workdir [''show'', ref] = map StdoutData chunks @ ev # post"
    and "lookup_failed chunks ev"
  shows "gitShowBuffer spawnGit workdir ref = Resolved []"
  using gitShowBuffer_first_terminal[where spawnGit = spawnGit, OF assms(1) lookup_failed_terminal[OF assms(2)]]
    assms(2) by simp

lemma decodeBuffer_empty: "decodeBuffer detect decode [] = Inr []"
  by (simp add: decodeBuffer_def)

text \<open>
  Claim C6.  Whenever \<^verbatim>\<open>git show\<close> produces no content, \<^verbatim>\<open>gitShow\<close> resolves
  to the empty string: the process could not be started (\<^verbatim>\<open>error\<close>), it closed
  with an exit code other than 0 (the stage or the object is missing), or it
  closed with exit code 0 after no content on \<^verbatim>\<open>stdout\<close>.  Here the events of
  the process are the chunks \<open>chunks\<close>, then the first \<^verbatim>\<open>close\<close> or \<^verbatim>\<open>error\<close>
  event \<open>ev\<close>, then whatever follows.
\<close>

theorem gitShow_absent_is_empty:
  assumes "spawnGit workdir [''show'', ref] = map StdoutData chunks @ ev # post"
    and "lookup_failed chunks ev"
  shows "gitShow detect decode spawnGit workdir ref = Resolved []"
  using gitShowBuffer_failed[where spawnGit = spawnGit, OF assms]
  by (simp add: gitShow_def decodeBuffer_empty)

theorem gitShow_absent_is_empty_witness:
  "(\<lambda>workdir args. [Close (Some 128)]) ''/repo'' [''show'', '':1:a.txt'']
     = map StdoutData [] @ Close (Some 128) # []
   \<and> lookup_failed [] (Close (Some 128))
   \<and> gitShow (\<lambda>buffer. None) (\<lambda>buffer encoding. Inl ''Encoding not recognized'')
        (\<lambda>workdir args. [Close (Some 128)]) ''/repo'' '':1:a.txt'' = Resolved []"
proof -
  have h1: "(\<lambda>workdir args. [Close (Some 128)]) ''/repo'' [''show'', '':1:a.txt'']
     = map StdoutData [] @ Close (Some 128) # []"
    by simp
  have h2: "lookup_failed [] (Close (Some 128))"
    by (simp add: lookup_failed_def)
  from gitShow_absent_is_empty[where spawnGit = "\<lambda>workdir args. [Close (Some 128)]", OF h1 h2] h1 h2
  show ?thesis by blast
qed





end
